theory Spec2Isabelle
  imports Complex_Main
begin

section \<open>The ADF engine of script.js\<close>

text \<open>
  The engine \<open>computeADF\<close> of \<open>src/script.js\<close> (lines 47 to 106) is embedded function by
  function. JavaScript numbers are modelled by the real numbers: every arithmetic
  operation is the exact one, \<open>Math.sqrt\<close> is \<open>sqrt\<close>, \<open>Math.acos\<close> is \<open>arccos\<close>,
  \<open>Math.PI\<close> is \<open>pi\<close>, \<open>Math.floor\<close> is the floor, and \<open>Math.round\<close> rounds to the
  nearest integer with ties going up. A position and the box are arrays of three
  numbers, modelled as triples; \<open>numBins\<close> is an array length, a natural number.
  The caller (lines 170 to 178) only invokes the engine with \<open>rMax > 0\<close> and
  \<open>numBins \<ge> 1\<close>, and the box edges are positive. For \<open>numBins = 0\<close> the read
  \<open>thetaBin[1]\<close> is out of range, and for a zero box edge the division of line 67 has
  no real value; the properties below that depend on them assume \<open>numBins \<ge> 1\<close> and
  positive box edges. Where a property depends on the rounding of doubles (the bin of an
  angle on a bin edge, a computed cosine beyond \<open>-1\<close>), it is stated on the second
  embedding of lines 53 to 95, in double-precision arithmetic.
\<close>

type_synonym vec3 = "real \<times> real \<times> real"

fun dot :: "vec3 \<Rightarrow> vec3 \<Rightarrow> real" where
  "dot (a0, a1, a2) (b0, b1, b2) = a0 * b0 + a1 * b1 + a2 * b2"

definition Math_round :: "real \<Rightarrow> real" where
  "Math_round x = of_int \<lfloor>x + 1 / 2\<rfloor>"

subsection \<open>Bin edges (lines 53 to 55)\<close>

definition thetaBin :: "nat \<Rightarrow> real list" where
  "thetaBin numBins = map (\<lambda>i. (real i * 180) / real numBins) [0..<numBins + 1]"

definition dtheta_of :: "nat \<Rightarrow> real" where
  "dtheta_of numBins = thetaBin numBins ! 1 - thetaBin numBins ! 0"

subsection \<open>Displacements, distances and neighbours (lines 58 to 74)\<close>

fun sub3 :: "vec3 \<Rightarrow> vec3 \<Rightarrow> vec3" where
  "sub3 (p0, p1, p2) (c0, c1, c2) = (p0 - c0, p1 - c1, p2 - c2)"

definition wrap_axis :: "real \<Rightarrow> real \<Rightarrow> real" where
  "wrap_axis b d = d - b * Math_round (d / b)"

fun pbc :: "vec3 \<Rightarrow> vec3 \<Rightarrow> vec3" where
  "pbc (b0, b1, b2) (d0, d1, d2) = (wrap_axis b0 d0, wrap_axis b1 d1, wrap_axis b2 d2)"

definition delta_of :: "vec3 list \<Rightarrow> vec3 \<Rightarrow> nat \<Rightarrow> vec3 list" where
  "delta_of positions boxSize i =
     map (pbc boxSize) (map (\<lambda>pos. sub3 pos (positions ! i)) positions)"

definition distances_of :: "vec3 list \<Rightarrow> real list" where
  "distances_of delta = map (\<lambda>d. sqrt (dot d d)) delta"

definition neighbors_of :: "real list \<Rightarrow> real \<Rightarrow> int list" where
  "neighbors_of distances rMax =
     filter (\<lambda>idx. idx \<noteq> - 1)
       (map (\<lambda>(d, idx). if d > 0 \<and> d < rMax then int idx else - 1)
            (zip distances [0..<length distances]))"

subsection \<open>The body of the pair loop (lines 78 to 92)\<close>

definition pair_body ::
  "nat \<Rightarrow> real \<Rightarrow> vec3 list \<Rightarrow> int list \<Rightarrow> nat \<Rightarrow> nat \<Rightarrow> real list \<Rightarrow> real list" where
  "pair_body numBins dtheta delta neighbors jIdx kIdx adf =
     (let j = neighbors ! jIdx;
          k = neighbors ! kIdx;
          vecIJ = delta ! nat j;
          vecIK = delta ! nat k;
          normIJ = sqrt (dot vecIJ vecIJ);
          normIK = sqrt (dot vecIK vecIK)
      in if normIJ = 0 \<or> normIK = 0 then adf
         else let cosTheta = dot vecIJ vecIK / (normIJ * normIK);
                  cosTheta = min 1 (max (- 1) cosTheta);
                  theta = (arccos cosTheta * 180) / pi;
                  binIndex = \<lfloor>theta / dtheta\<rfloor>
              in if binIndex \<ge> 0 \<and> binIndex < int numBins
                 then adf[nat binIndex := adf ! nat binIndex + 2]
                 else adf)"

subsection \<open>The loops (lines 57 to 95)\<close>

definition pair_loop ::
  "nat \<Rightarrow> real \<Rightarrow> vec3 list \<Rightarrow> int list \<Rightarrow> real list \<Rightarrow> real list" where
  "pair_loop numBins dtheta delta neighbors adf =
     fold (\<lambda>jIdx. fold (\<lambda>kIdx. pair_body numBins dtheta delta neighbors jIdx kIdx)
                       [jIdx + 1..<length neighbors])
          [0..<length neighbors] adf"

definition central_step ::
  "vec3 list \<Rightarrow> vec3 \<Rightarrow> real \<Rightarrow> nat \<Rightarrow> nat \<Rightarrow> real list \<Rightarrow> real list" where
  "central_step positions boxSize rMax numBins i adf =
     (let delta = delta_of positions boxSize i;
          distances = distances_of delta;
          neighbors = neighbors_of distances rMax
      in pair_loop numBins (dtheta_of numBins) delta neighbors adf)"

definition raw_adf :: "vec3 list \<Rightarrow> vec3 \<Rightarrow> real \<Rightarrow> nat \<Rightarrow> real list" where
  "raw_adf positions boxSize rMax numBins =
     fold (central_step positions boxSize rMax numBins) [0..<length positions]
          (replicate numBins 0)"

subsection \<open>Normalisation and the result (lines 97 to 105)\<close>

text \<open>
  The page has one global, \<open>chartInstance\<close> (line 1), written by \<open>plotADF\<close>, and the
  console, to which \<open>computeADF\<close> writes its warning. Both are threaded through the
  model as an explicit state.
\<close>

record chart =
  labels :: "real list"
  data :: "real list"

record page =
  chartInstance :: "chart option"
  console :: "string list"

record adf_result =
  theta :: "real list"
  adf :: "real list"

definition computeADF ::
  "vec3 list \<Rightarrow> vec3 \<Rightarrow> real \<Rightarrow> nat \<Rightarrow> page \<Rightarrow> adf_result \<times> page" where
  "computeADF positions boxSize rMax numBins s =
     (let dtheta = dtheta_of numBins;
          counts = raw_adf positions boxSize rMax numBins;
          totalCounts = foldl (\<lambda>sum val. sum + val) 0 counts
      in if totalCounts = 0
         then (\<lparr>theta = butlast (thetaBin numBins), adf = counts\<rparr>,
               s\<lparr>console := console s @ [''No angles were counted within r_max.'']\<rparr>)
         else let dthetaRad = (dtheta * pi) / 180;
                  normalizedADF = map (\<lambda>count. count / (totalCounts * dthetaRad)) counts
              in (\<lparr>theta = butlast (thetaBin numBins), adf = normalizedADF\<rparr>, s))"

definition plotADF :: "real list \<Rightarrow> real list \<Rightarrow> page \<Rightarrow> page" where
  "plotADF th a s = s\<lparr>chartInstance := Some \<lparr>labels = th, data = a\<rparr>\<rparr>"

subsection \<open>Notions used to state the properties\<close>

text \<open>Valid inputs: positive box edges (the data model's invariant).\<close>

fun valid_box :: "vec3 \<Rightarrow> bool" where
  "valid_box (b0, b1, b2) = (0 < b0 \<and> 0 < b1 \<and> 0 < b2)"

text \<open>The minimum-image displacement and distance of particle \<open>p\<close> from the central \<open>i\<close>.\<close>

definition mi_disp :: "vec3 list \<Rightarrow> vec3 \<Rightarrow> nat \<Rightarrow> nat \<Rightarrow> vec3" where
  "mi_disp positions boxSize i p = pbc boxSize (sub3 (positions ! p) (positions ! i))"

definition mi_dist :: "vec3 list \<Rightarrow> vec3 \<Rightarrow> nat \<Rightarrow> nat \<Rightarrow> real" where
  "mi_dist positions boxSize i p =
     sqrt (dot (mi_disp positions boxSize i p) (mi_disp positions boxSize i p))"

text \<open>The neighbour list of the central particle \<open>i\<close> (lines 58 to 74).\<close>

definition neighbors_at :: "vec3 list \<Rightarrow> vec3 \<Rightarrow> real \<Rightarrow> nat \<Rightarrow> int list" where
  "neighbors_at positions boxSize rMax i =
     neighbors_of (distances_of (delta_of positions boxSize i)) rMax"

text \<open>The index pairs \<open>(jIdx, kIdx)\<close> the two inner loops visit, in their order.\<close>

definition pair_indices :: "nat \<Rightarrow> (nat \<times> nat) list" where
  "pair_indices n = concat (map (\<lambda>jIdx. map (Pair jIdx) [jIdx + 1..<n]) [0..<n])"

text \<open>All visits \<open>(i, jIdx, kIdx)\<close> of the three loops, in their order.\<close>

definition triples :: "vec3 list \<Rightarrow> vec3 \<Rightarrow> real \<Rightarrow> (nat \<times> nat \<times> nat) list" where
  "triples positions boxSize rMax =
     concat (map (\<lambda>i. map (Pair i) (pair_indices (length (neighbors_at positions boxSize rMax i))))
                 [0..<length positions])"

text \<open>
  The clamp of line 87, the angle in degrees of line 88 as a function of the computed
  cosine, and the angle between two displacement vectors (lines 82 to 88).
\<close>

definition clamp_cos :: "real \<Rightarrow> real" where
  "clamp_cos cosTheta = min 1 (max (- 1) cosTheta)"

definition theta_of_cos :: "real \<Rightarrow> real" where
  "theta_of_cos cosTheta = (arccos (clamp_cos cosTheta) * 180) / pi"

definition pair_theta :: "vec3 \<Rightarrow> vec3 \<Rightarrow> real" where
  "pair_theta vecIJ vecIK =
     theta_of_cos (dot vecIJ vecIK / (sqrt (dot vecIJ vecIJ) * sqrt (dot vecIK vecIK)))"

text \<open>The angle in degrees of a visit, and the bin index \<open>floor (theta / (180 / numBins))\<close>.\<close>

fun triple_theta :: "vec3 list \<Rightarrow> vec3 \<Rightarrow> real \<Rightarrow> nat \<times> nat \<times> nat \<Rightarrow> real" where
  "triple_theta positions boxSize rMax (i, jIdx, kIdx) =
     pair_theta (mi_disp positions boxSize i (nat (neighbors_at positions boxSize rMax i ! jIdx)))
                (mi_disp positions boxSize i (nat (neighbors_at positions boxSize rMax i ! kIdx)))"

definition bin_of :: "nat \<Rightarrow> real \<Rightarrow> int" where
  "bin_of numBins th = \<lfloor>th / (180 / real numBins)\<rfloor>"

text \<open>Adding 2 to one bin when the index is in range (lines 90 to 92).\<close>

definition bump :: "nat \<Rightarrow> int \<Rightarrow> real list \<Rightarrow> real list" where
  "bump numBins binIndex hist =
     (if binIndex \<ge> 0 \<and> binIndex < int numBins
      then hist[nat binIndex := hist ! nat binIndex + 2] else hist)"

text \<open>Concrete inputs: the right-angle example, the pair across the periodic boundary,
  and an initial page.\<close>

definition right_angle :: "vec3 list" where
  "right_angle = [(0, 0, 0), (1, 0, 0), (0, 1, 0)]"

definition pbc_pair :: "vec3 list" where
  "pbc_pair = [(0.5, 5, 5), (9.5, 5, 5)]"

definition page0 :: page where
  "page0 = \<lparr>chartInstance = None, console = []\<rparr>"

section \<open>The pair loop in double-precision arithmetic\<close>

text \<open>
  Where a property depends on rounding, lines 53 to 95 are embedded once more with the
  arithmetic of IEEE 754 binary64: the result of every operation is rounded to the nearest
  double, ties to even (\<open>fl\<close>). Only finite numbers are modelled (no overflow to
  infinity). The counts stay small integers, so \<open>adf[binIndex] += 2\<close> is exact.
  \<open>Math.PI\<close> is the double \<open>884279719003555 / 2^48\<close>, \<open>Math.sqrt\<close> is the correctly
  rounded square root. \<open>Math.acos\<close> is approximated by
  the implementation; it is a parameter \<open>acos\<close> of the model, and outside \<open>[-1, 1]\<close> its
  result is NaN, written \<open>None\<close>. A NaN angle gives a NaN bin index, for which both
  comparisons of line 90 are false.
\<close>

definition rne :: "real \<Rightarrow> int" where
  "rne y = (let f = \<lfloor>y\<rfloor>; r = y - of_int f
            in if r < 1 / 2 then f else if 1 / 2 < r then f + 1
               else if even f then f else f + 1)"

definition fl :: "real \<Rightarrow> real" where
  "fl x = (if x = 0 then 0
           else let e = max (- 1022) \<lfloor>log 2 \<bar>x\<bar>\<rfloor> - 52
                in of_int (rne (x / 2 powr of_int e)) * 2 powr of_int e)"

definition Math_PI :: real where
  "Math_PI = 884279719003555 / 2 ^ 48"

definition Math_acos :: "(real \<Rightarrow> real) \<Rightarrow> real \<Rightarrow> real option" where
  "Math_acos acos x = (if - 1 \<le> x \<and> x \<le> 1 then Some (acos x) else None)"

fun dot_fp :: "vec3 \<Rightarrow> vec3 \<Rightarrow> real" where
  "dot_fp (a0, a1, a2) (b0, b1, b2) = fl (fl (fl (a0 * b0) + fl (a1 * b1)) + fl (a2 * b2))"

definition thetaBin_fp :: "nat \<Rightarrow> real list" where
  "thetaBin_fp numBins = map (\<lambda>i. fl (fl (real i * 180) / real numBins)) [0..<numBins + 1]"

definition dtheta_fp :: "nat \<Rightarrow> real" where
  "dtheta_fp numBins = fl (thetaBin_fp numBins ! 1 - thetaBin_fp numBins ! 0)"

fun sub3_fp :: "vec3 \<Rightarrow> vec3 \<Rightarrow> vec3" where
  "sub3_fp (p0, p1, p2) (c0, c1, c2) = (fl (p0 - c0), fl (p1 - c1), fl (p2 - c2))"

definition wrap_axis_fp :: "real \<Rightarrow> real \<Rightarrow> real" where
  "wrap_axis_fp b d = fl (d - fl (b * Math_round (fl (d / b))))"

fun pbc_fp :: "vec3 \<Rightarrow> vec3 \<Rightarrow> vec3" where
  "pbc_fp (b0, b1, b2) (d0, d1, d2) =
     (wrap_axis_fp b0 d0, wrap_axis_fp b1 d1, wrap_axis_fp b2 d2)"

definition delta_fp :: "vec3 list \<Rightarrow> vec3 \<Rightarrow> nat \<Rightarrow> vec3 list" where
  "delta_fp positions boxSize i =
     map (pbc_fp boxSize) (map (\<lambda>pos. sub3_fp pos (positions ! i)) positions)"

definition distances_fp :: "vec3 list \<Rightarrow> real list" where
  "distances_fp delta = map (\<lambda>d. fl (sqrt (dot_fp d d))) delta"

definition pair_body_fp ::
  "(real \<Rightarrow> real) \<Rightarrow> nat \<Rightarrow> real \<Rightarrow> vec3 list \<Rightarrow> int list \<Rightarrow> nat \<Rightarrow> nat
     \<Rightarrow> real list \<Rightarrow> real list" where
  "pair_body_fp acos numBins dtheta delta neighbors jIdx kIdx hist =
     (let j = neighbors ! jIdx;
          k = neighbors ! kIdx;
          vecIJ = delta ! nat j;
          vecIK = delta ! nat k;
          normIJ = fl (sqrt (dot_fp vecIJ vecIJ));
          normIK = fl (sqrt (dot_fp vecIK vecIK))
      in if normIJ = 0 \<or> normIK = 0 then hist
         else let cosTheta = fl (dot_fp vecIJ vecIK / fl (normIJ * normIK));
                  cosTheta = min 1 (max (- 1) cosTheta)
              in case Math_acos acos cosTheta of
                   None \<Rightarrow> hist
                 | Some a \<Rightarrow>
                     let theta = fl (fl (a * 180) / Math_PI);
                         binIndex = \<lfloor>fl (theta / dtheta)\<rfloor>
                     in if binIndex \<ge> 0 \<and> binIndex < int numBins
                        then hist[nat binIndex := hist ! nat binIndex + 2]
                        else hist)"

definition pair_loop_fp ::
  "(real \<Rightarrow> real) \<Rightarrow> nat \<Rightarrow> real \<Rightarrow> vec3 list \<Rightarrow> int list \<Rightarrow> real list \<Rightarrow> real list" where
  "pair_loop_fp acos numBins dtheta delta neighbors hist =
     fold (\<lambda>jIdx. fold (\<lambda>kIdx. pair_body_fp acos numBins dtheta delta neighbors jIdx kIdx)
                       [jIdx + 1..<length neighbors])
          [0..<length neighbors] hist"

definition central_step_fp ::
  "(real \<Rightarrow> real) \<Rightarrow> vec3 list \<Rightarrow> vec3 \<Rightarrow> real \<Rightarrow> nat \<Rightarrow> nat \<Rightarrow> real list \<Rightarrow> real list" where
  "central_step_fp acos positions boxSize rMax numBins i hist =
     (let delta = delta_fp positions boxSize i;
          distances = distances_fp delta;
          neighbors = neighbors_of distances rMax
      in pair_loop_fp acos numBins (dtheta_fp numBins) delta neighbors hist)"

definition raw_adf_fp :: "(real \<Rightarrow> real) \<Rightarrow> vec3 list \<Rightarrow> vec3 \<Rightarrow> real \<Rightarrow> nat \<Rightarrow> real list" where
  "raw_adf_fp acos positions boxSize rMax numBins =
     fold (central_step_fp acos positions boxSize rMax numBins) [0..<length positions]
          (replicate numBins 0)"

subsection \<open>Notions used to state the properties of the double-precision loop\<close>

text \<open>The neighbour list of the central particle \<open>i\<close> and the visits of the three loops.\<close>

definition neighbors_fp :: "vec3 list \<Rightarrow> vec3 \<Rightarrow> real \<Rightarrow> nat \<Rightarrow> int list" where
  "neighbors_fp positions boxSize rMax i =
     neighbors_of (distances_fp (delta_fp positions boxSize i)) rMax"

definition triples_fp :: "vec3 list \<Rightarrow> vec3 \<Rightarrow> real \<Rightarrow> (nat \<times> nat \<times> nat) list" where
  "triples_fp positions boxSize rMax =
     concat (map (\<lambda>i. map (Pair i) (pair_indices (length (neighbors_fp positions boxSize rMax i))))
                 [0..<length positions])"

text \<open>The computed cosine of line 86, before the clamp.\<close>

definition cos_fp :: "vec3 \<Rightarrow> vec3 \<Rightarrow> real" where
  "cos_fp vecIJ vecIK =
     fl (dot_fp vecIJ vecIK / fl (fl (sqrt (dot_fp vecIJ vecIJ)) * fl (sqrt (dot_fp vecIK vecIK))))"

text \<open>
  The angle in degrees of a pair (lines 82 to 88) and its bin index (line 89);
  \<open>None\<close> when the pair is skipped by the guard of line 84 or the angle is NaN.
\<close>

definition pair_theta_fp :: "(real \<Rightarrow> real) \<Rightarrow> vec3 \<Rightarrow> vec3 \<Rightarrow> real option" where
  "pair_theta_fp acos vecIJ vecIK =
     (if fl (sqrt (dot_fp vecIJ vecIJ)) = 0 \<or> fl (sqrt (dot_fp vecIK vecIK)) = 0 then None
      else map_option (\<lambda>a. fl (fl (a * 180) / Math_PI))
             (Math_acos acos (min 1 (max (- 1) (cos_fp vecIJ vecIK)))))"

definition pair_bin_fp :: "(real \<Rightarrow> real) \<Rightarrow> real \<Rightarrow> vec3 \<Rightarrow> vec3 \<Rightarrow> int option" where
  "pair_bin_fp acos dtheta vecIJ vecIK =
     map_option (\<lambda>th. \<lfloor>fl (th / dtheta)\<rfloor>) (pair_theta_fp acos vecIJ vecIK)"

fun triple_bin_fp ::
  "(real \<Rightarrow> real) \<Rightarrow> nat \<Rightarrow> vec3 list \<Rightarrow> vec3 \<Rightarrow> real \<Rightarrow> nat \<times> nat \<times> nat \<Rightarrow> int option" where
  "triple_bin_fp acos numBins positions boxSize rMax (i, jIdx, kIdx) =
     pair_bin_fp acos (dtheta_fp numBins)
       (delta_fp positions boxSize i ! nat (neighbors_fp positions boxSize rMax i ! jIdx))
       (delta_fp positions boxSize i ! nat (neighbors_fp positions boxSize rMax i ! kIdx))"

text \<open>
  A reference \<open>Math.acos\<close>: the correctly rounded arc cosine; at \<open>-1\<close> this is
  \<open>Math.PI\<close>, the double nearest to \<open>pi\<close>, written out.
\<close>

definition acos_ref :: "real \<Rightarrow> real" where
  "acos_ref x = (if x = - 1 then Math_PI else fl (arccos x))"

text \<open>The bin index of a visit as an integer, \<open>-1\<close> (no bin) for \<open>None\<close>.\<close>

definition bin_code :: "int option \<Rightarrow> int" where
  "bin_code x = (case x of None \<Rightarrow> - 1 | Some bi \<Rightarrow> bi)"

text \<open>Three particles on a line, the outer two on opposite sides of the first.\<close>

definition straight_line :: "vec3 list" where
  "straight_line = [(5, 5, 5), (6, 5, 5), (4, 5, 5)]"

text \<open>Three particles on a diagonal, the outer two on opposite sides of the first.\<close>

definition diagonal :: "vec3 list" where
  "diagonal = [(5, 5, 5), (6, 6, 6), (4, 4, 4)]"

section \<open>Auxiliary lemmas\<close>

lemma length_thetaBin: "length (thetaBin n) = n + 1" by (simp add: thetaBin_def)

lemma nth_thetaBin: "k \<le> n \<Longrightarrow> thetaBin n ! k = (real k * 180) / real n"
  unfolding thetaBin_def by (simp add: nth_map_upt del: upt_Suc)

lemma dtheta_of_eq: "1 \<le> n \<Longrightarrow> dtheta_of n = 180 / real n"
  by (simp add: dtheta_of_def nth_thetaBin)

lemma zip_upt_nth: "zip xs [0..<length xs] = map (\<lambda>i. (xs ! i, i)) [0..<length xs]"
  by (rule nth_equalityI) simp_all

lemma neighbors_of_eq:
  "neighbors_of ds r = map int (filter (\<lambda>p. 0 < ds ! p \<and> ds ! p < r) [0..<length ds])"
proof -
  let ?g = "\<lambda>i. if ds ! i > 0 \<and> ds ! i < r then int i else - 1"
  have "neighbors_of ds r = filter (\<lambda>idx. idx \<noteq> - 1) (map ?g [0..<length ds])"
    by (simp add: neighbors_of_def zip_upt_nth o_def)
  also have "\<dots> = map ?g (filter (\<lambda>p. 0 < ds ! p \<and> ds ! p < r) [0..<length ds])"
    by (simp add: filter_map o_def)
  also have "\<dots> = map int (filter (\<lambda>p. 0 < ds ! p \<and> ds ! p < r) [0..<length ds])"
    by (rule map_cong) auto
  finally show ?thesis .
qed

lemma length_delta_of: "length (delta_of ps b i) = length ps" by (simp add: delta_of_def)

lemma nth_delta_of: "p < length ps \<Longrightarrow> delta_of ps b i ! p = mi_disp ps b i p"
  by (simp add: delta_of_def mi_disp_def)

lemma nth_distances_of:
  "p < length ps \<Longrightarrow> distances_of (delta_of ps b i) ! p = mi_dist ps b i p"
  by (simp add: distances_of_def length_delta_of nth_delta_of mi_dist_def)

lemma neighbors_at_eq:
  "neighbors_at ps b r i =
     map int (filter (\<lambda>p. 0 < mi_dist ps b i p \<and> mi_dist ps b i p < r) [0..<length ps])"
proof -
  have "filter (\<lambda>p. 0 < distances_of (delta_of ps b i) ! p \<and> distances_of (delta_of ps b i) ! p < r) [0..<length ps]
      = filter (\<lambda>p. 0 < mi_dist ps b i p \<and> mi_dist ps b i p < r) [0..<length ps]"
    by (rule filter_cong) (simp_all add: nth_distances_of)
  thus ?thesis
    by (simp add: neighbors_at_def neighbors_of_eq distances_of_def length_delta_of)
qed

lemma neighbors_at_mem:
  "n \<in> set (neighbors_at ps b r i) \<longleftrightarrow>
     (\<exists>p. n = int p \<and> p < length ps \<and> 0 < mi_dist ps b i p \<and> mi_dist ps b i p < r)"
  by (auto simp add: neighbors_at_eq)

lemma Math_round_0: "Math_round 0 = 0" by (simp add: Math_round_def)

lemma mi_disp_self: "mi_disp ps b i i = (0, 0, 0)"
  by (cases b; cases "ps ! i") (simp add: mi_disp_def wrap_axis_def Math_round_0)

lemma mi_dist_self: "mi_dist ps b i i = 0"
  by (simp add: mi_dist_def mi_disp_self)

lemma fold_concat_map: "fold f (concat (map g xs)) s = fold (\<lambda>x. fold f (g x)) xs s"
  by (induction xs arbitrary: s) simp_all

lemma pair_loop_pairs:
  "pair_loop nb dt dl ns h =
     fold (\<lambda>(jIdx, kIdx). pair_body nb dt dl ns jIdx kIdx) (pair_indices (length ns)) h"
  by (simp add: pair_loop_def pair_indices_def fold_concat_map fold_map o_def)

lemma set_pair_indices: "set (pair_indices n) = {(j, k). j < k \<and> k < n}"
proof -
  have "(a, b) \<in> set (pair_indices n)" if "a < b" "b < n" for a b
    unfolding pair_indices_def using that
    by (auto intro!: bexI[where x = a])
  moreover have "a < b \<and> b < n" if "(a, b) \<in> set (pair_indices n)" for a b
    using that unfolding pair_indices_def by auto
  ultimately show ?thesis by auto
qed

lemma distinct_tagged:
  "distinct xs \<Longrightarrow> (\<And>x. x \<in> set xs \<Longrightarrow> distinct (g x)) \<Longrightarrow>
   distinct (concat (map (\<lambda>x. map (Pair x) (g x)) xs))"
  by (induction xs) (auto simp add: distinct_map inj_on_def)

lemma distinct_pair_indices: "distinct (pair_indices n)"
  unfolding pair_indices_def by (rule distinct_tagged) simp_all

lemma length_bump: "length (bump nb bi h) = length h"
  by (simp add: bump_def)

lemma nth_bump:
  "b < length h \<Longrightarrow> length h = nb \<Longrightarrow>
   bump nb bi h ! b = h ! b + (if bi = int b then 2 else 0)"
  by (auto simp add: bump_def nth_list_update)

lemma length_fold_bump: "length (fold (\<lambda>x. bump nb (f x)) xs h) = length h"
  by (induction xs arbitrary: h) (simp_all add: length_bump)

lemma nth_fold_bump:
  "b < nb \<Longrightarrow> length h = nb \<Longrightarrow>
   fold (\<lambda>x. bump nb (f x)) xs h ! b = h ! b + 2 * real (length (filter (\<lambda>x. f x = int b) xs))"
proof (induction xs arbitrary: h)
  case Nil
  show ?case by simp
next
  case (Cons x xs)
  have "fold (\<lambda>x. bump nb (f x)) (x # xs) h ! b = fold (\<lambda>x. bump nb (f x)) xs (bump nb (f x) h) ! b"
    by simp
  also have "\<dots> = bump nb (f x) h ! b + 2 * real (length (filter (\<lambda>x. f x = int b) xs))"
    using Cons.prems by (intro Cons.IH) (simp_all add: length_bump)
  also have "bump nb (f x) h ! b = h ! b + (if f x = int b then 2 else 0)"
    using Cons.prems by (simp add: nth_bump)
  finally show ?case by simp
qed

lemma neighbor_in_range:
  assumes "jIdx < length (neighbors_at ps b r i)"
  shows "\<exists>p. neighbors_at ps b r i ! jIdx = int p \<and> p < length ps
             \<and> 0 < mi_dist ps b i p \<and> mi_dist ps b i p < r"
  using assms nth_mem[OF assms] by (simp only: neighbors_at_mem)

lemma pair_body_alt:
  "pair_body nb dt dl ns jIdx kIdx h =
     (let vecIJ = dl ! nat (ns ! jIdx); vecIK = dl ! nat (ns ! kIdx)
      in if sqrt (dot vecIJ vecIJ) = 0 \<or> sqrt (dot vecIK vecIK) = 0 then h
         else bump nb \<lfloor>pair_theta vecIJ vecIK / dt\<rfloor> h)"
  unfolding pair_body_def pair_theta_def theta_of_cos_def clamp_cos_def bump_def Let_def
  by (rule refl)

lemma pair_body_bump:
  assumes nb: "1 \<le> nb"
    and j: "jIdx < length (neighbors_at ps b r i)"
    and k: "kIdx < length (neighbors_at ps b r i)"
  shows "pair_body nb (dtheta_of nb) (delta_of ps b i) (neighbors_at ps b r i) jIdx kIdx h
         = bump nb (bin_of nb (triple_theta ps b r (i, jIdx, kIdx))) h"
proof -
  obtain p where p: "neighbors_at ps b r i ! jIdx = int p" "p < length ps" "0 < mi_dist ps b i p"
    using neighbor_in_range[OF j] by blast
  obtain q where q: "neighbors_at ps b r i ! kIdx = int q" "q < length ps" "0 < mi_dist ps b i q"
    using neighbor_in_range[OF k] by blast
  have np: "sqrt (dot (mi_disp ps b i p) (mi_disp ps b i p)) \<noteq> 0"
    using p(3) by (simp add: mi_dist_def)
  have nq: "sqrt (dot (mi_disp ps b i q) (mi_disp ps b i q)) \<noteq> 0"
    using q(3) by (simp add: mi_dist_def)
  show ?thesis
    using np nq p(1,2) q(1,2) nb
    by (simp add: pair_body_alt Let_def nth_delta_of bin_of_def dtheta_of_eq)
qed

lemma central_step_pairs:
  assumes "1 \<le> nb"
  shows "central_step ps b r nb i h =
     fold (\<lambda>(jIdx, kIdx). bump nb (bin_of nb (triple_theta ps b r (i, jIdx, kIdx))))
          (pair_indices (length (neighbors_at ps b r i))) h"
proof -
  have "central_step ps b r nb i h =
     fold (\<lambda>(jIdx, kIdx). pair_body nb (dtheta_of nb) (delta_of ps b i) (neighbors_at ps b r i) jIdx kIdx)
          (pair_indices (length (neighbors_at ps b r i))) h"
    by (simp add: central_step_def Let_def pair_loop_pairs neighbors_at_def)
  also have "\<dots> = fold (\<lambda>(jIdx, kIdx). bump nb (bin_of nb (triple_theta ps b r (i, jIdx, kIdx))))
          (pair_indices (length (neighbors_at ps b r i))) h"
  proof (rule fold_cong[OF refl refl])
    fix x assume "x \<in> set (pair_indices (length (neighbors_at ps b r i)))"
    then obtain jIdx kIdx where x: "x = (jIdx, kIdx)" "jIdx < kIdx" "kIdx < length (neighbors_at ps b r i)"
      by (auto simp add: set_pair_indices)
    show "(case x of (jIdx, kIdx) \<Rightarrow> pair_body nb (dtheta_of nb) (delta_of ps b i) (neighbors_at ps b r i) jIdx kIdx)
        = (case x of (jIdx, kIdx) \<Rightarrow> bump nb (bin_of nb (triple_theta ps b r (i, jIdx, kIdx))))"
      using x assms by (auto simp add: pair_body_bump)
  qed
  finally show ?thesis .
qed

lemma raw_adf_triples:
  assumes "1 \<le> nb"
  shows "raw_adf ps b r nb =
     fold (\<lambda>t. bump nb (bin_of nb (triple_theta ps b r t))) (triples ps b r) (replicate nb 0)"
proof -
  have "central_step ps b r nb i h = fold (\<lambda>t. bump nb (bin_of nb (triple_theta ps b r t)))
          (map (Pair i) (pair_indices (length (neighbors_at ps b r i)))) h" for i h
    unfolding central_step_pairs[OF assms] fold_map
    by (rule fold_cong[OF refl refl]) auto
  hence "central_step ps b r nb = (\<lambda>i. fold (\<lambda>t. bump nb (bin_of nb (triple_theta ps b r t)))
          (map (Pair i) (pair_indices (length (neighbors_at ps b r i)))))"
    by (intro ext)
  thus ?thesis
    by (simp add: raw_adf_def triples_def fold_concat_map)
qed

lemma length_raw_adf: "1 \<le> nb \<Longrightarrow> length (raw_adf ps b r nb) = nb"
  by (simp add: raw_adf_triples length_fold_bump)

lemma nth_raw_adf:
  "1 \<le> nb \<Longrightarrow> bn < nb \<Longrightarrow>
   raw_adf ps b r nb ! bn =
     2 * real (length (filter (\<lambda>t. bin_of nb (triple_theta ps b r t) = int bn) (triples ps b r)))"
  by (simp add: raw_adf_triples nth_fold_bump)

lemma set_triples:
  "set (triples ps b r) =
     {(i, jIdx, kIdx). i < length ps \<and> jIdx < kIdx \<and> kIdx < length (neighbors_at ps b r i)}"
  by (auto simp add: triples_def set_pair_indices)

lemma distinct_triples: "distinct (triples ps b r)"
  unfolding triples_def by (rule distinct_tagged) (simp_all add: distinct_pair_indices)

lemma sqrt2_gt: "6 / 5 < sqrt 2" by (rule real_less_rsqrt) (simp add: power2_eq_square)

lemma sqrt2_lt: "sqrt 2 < 2" by (rule real_less_lsqrt) (simp_all add: power2_eq_square)

lemma clamp_cos_id: "- 1 \<le> c \<Longrightarrow> c \<le> 1 \<Longrightarrow> clamp_cos c = c"
  by (simp add: clamp_cos_def)

lemma arccos_inv_sqrt2: "arccos (1 / sqrt 2) = pi / 4"
proof -
  have "cos (pi / 4) = 1 / sqrt 2" by (simp add: cos_45 real_div_sqrt field_simps)
  moreover have "arccos (cos (pi / 4)) = pi / 4" by (rule arccos_cos) simp_all
  ultimately show ?thesis by simp
qed

lemma Math_round_small: "- 1 / 2 \<le> x \<Longrightarrow> x < 1 / 2 \<Longrightarrow> Math_round x = 0"
  unfolding Math_round_def by (simp add: floor_eq_iff)

lemma wrap_axis_small: "0 < b \<Longrightarrow> - b / 2 \<le> d \<Longrightarrow> d < b / 2 \<Longrightarrow> wrap_axis b d = d"
  unfolding wrap_axis_def by (subst Math_round_small) (simp_all add: field_simps)

lemma inv_sqrt2_bounds: "- 1 \<le> 1 / sqrt 2" "1 / sqrt 2 \<le> 1"
proof -
  have "0 \<le> 1 / sqrt 2" by simp
  thus "- 1 \<le> 1 / sqrt 2" by linarith
  show "1 / sqrt 2 \<le> 1" by simp
qed

lemma pt90: "pair_theta (1,0,0) (0,1,0) = 90"
  by (simp add: pair_theta_def theta_of_cos_def clamp_cos_def)

lemma pt45: "pair_theta (-1,0,0) (-1,1,0) = 45"
proof -
  have "clamp_cos (1 / sqrt 2) = 1 / sqrt 2" by (rule clamp_cos_id[OF inv_sqrt2_bounds])
  thus ?thesis by (simp add: pair_theta_def theta_of_cos_def arccos_inv_sqrt2)
qed

lemma pt45': "pair_theta (0,-1,0) (1,-1,0) = 45"
proof -
  have "clamp_cos (1 / sqrt 2) = 1 / sqrt 2" by (rule clamp_cos_id[OF inv_sqrt2_bounds])
  thus ?thesis by (simp add: pair_theta_def theta_of_cos_def arccos_inv_sqrt2)
qed

lemma delta_right_angle:
  assumes "2 < b0" "2 < b1" "2 < b2"
  shows "delta_of right_angle (b0,b1,b2) 0 = [(0,0,0),(1,0,0),(0,1,0)]"
    and "delta_of right_angle (b0,b1,b2) (Suc 0) = [(-1,0,0),(0,0,0),(-1,1,0)]"
    and "delta_of right_angle (b0,b1,b2) 2 = [(0,-1,0),(1,-1,0),(0,0,0)]"
  using assms by (simp_all add: delta_of_def right_angle_def wrap_axis_small)

lemma nbrs_near:
  assumes "1 < r" "r \<le> sqrt 2"
  shows "neighbors_of (distances_of [(0,0,0),(1,0,0),(0,1,0)]) r = [1, 2]"
    and "neighbors_of (distances_of [(-1,0,0),(0,0,0),(-1,1,0)]) r = [0]"
    and "neighbors_of (distances_of [(0,-1,0),(1,-1,0),(0,0,0)]) r = [0]"
  using assms by (simp_all add: neighbors_of_def distances_of_def)

lemma nbrs_far:
  assumes "sqrt 2 < r"
  shows "neighbors_of (distances_of [(0,0,0),(1,0,0),(0,1,0)]) r = [1, 2]"
    and "neighbors_of (distances_of [(-1,0,0),(0,0,0),(-1,1,0)]) r = [0, 2]"
    and "neighbors_of (distances_of [(0,-1,0),(1,-1,0),(0,0,0)]) r = [0, 1]"
proof -
  have "1 < sqrt 2" by simp
  hence "1 < r" using assms by linarith
  thus "neighbors_of (distances_of [(0,0,0),(1,0,0),(0,1,0)]) r = [1, 2]"
    and "neighbors_of (distances_of [(-1,0,0),(0,0,0),(-1,1,0)]) r = [0, 2]"
    and "neighbors_of (distances_of [(0,-1,0),(1,-1,0),(0,0,0)]) r = [0, 1]"
    using assms by (simp_all add: neighbors_of_def distances_of_def)
qed

lemma pair_loop_single: "pair_loop nb dt dl [n] h = h"
  by (simp add: pair_loop_def)

lemma pair_loop_two:
  "pair_loop nb dt dl [m, n] h = pair_body nb dt dl [m, n] 0 (Suc 0) h"
  by (simp add: pair_loop_def)

lemma pb90: "1 \<le> nb \<Longrightarrow> pair_body nb (dtheta_of nb) [(0,0,0),(1,0,0),(0,1,0)] [1, 2] 0 (Suc 0) h = bump nb (bin_of nb 90) h"
  by (simp add: pair_body_alt pt90 dtheta_of_eq bin_of_def Let_def)

lemma pb45: "1 \<le> nb \<Longrightarrow> pair_body nb (dtheta_of nb) [(-1,0,0),(0,0,0),(-1,1,0)] [0, 2] 0 (Suc 0) h = bump nb (bin_of nb 45) h"
  by (simp add: pair_body_alt pt45 dtheta_of_eq bin_of_def Let_def)

lemma pb45': "1 \<le> nb \<Longrightarrow> pair_body nb (dtheta_of nb) [(0,-1,0),(1,-1,0),(0,0,0)] [0, 1] 0 (Suc 0) h = bump nb (bin_of nb 45) h"
  by (simp add: pair_body_alt pt45' dtheta_of_eq bin_of_def Let_def)

lemma central_right_angle_near:
  assumes "2 < b0" "2 < b1" "2 < b2" "1 < r" "r \<le> sqrt 2" "1 \<le> nb"
  shows "central_step right_angle (b0,b1,b2) r nb 0 h = bump nb (bin_of nb 90) h"
    and "central_step right_angle (b0,b1,b2) r nb (Suc 0) h = h"
    and "central_step right_angle (b0,b1,b2) r nb 2 h = h"
  using assms(6)
  by (simp_all add: central_step_def delta_right_angle[OF assms(1-3)] nbrs_near[OF assms(4,5)]
        pair_loop_single pair_loop_two pb90)

lemma central_right_angle_far:
  assumes "2 < b0" "2 < b1" "2 < b2" "sqrt 2 < r" "1 \<le> nb"
  shows "central_step right_angle (b0,b1,b2) r nb 0 h = bump nb (bin_of nb 90) h"
    and "central_step right_angle (b0,b1,b2) r nb (Suc 0) h = bump nb (bin_of nb 45) h"
    and "central_step right_angle (b0,b1,b2) r nb 2 h = bump nb (bin_of nb 45) h"
  using assms(5)
  by (simp_all add: central_step_def delta_right_angle[OF assms(1-3)] nbrs_far[OF assms(4)]
        pair_loop_two pb90 pb45 pb45')

lemma raw_adf_three:
  "length ps = 3 \<Longrightarrow> raw_adf ps b r nb =
     central_step ps b r nb 2 (central_step ps b r nb (Suc 0) (central_step ps b r nb 0 (replicate nb 0)))"
  by (simp add: raw_adf_def upt_rec numeral_3_eq_3 numeral_2_eq_2)

lemma raw_right_angle_near:
  assumes "2 < b0" "2 < b1" "2 < b2" "1 < r" "r \<le> sqrt 2" "1 \<le> nb"
  shows "raw_adf right_angle (b0,b1,b2) r nb = bump nb (bin_of nb 90) (replicate nb 0)"
  by (simp add: raw_adf_three right_angle_def central_right_angle_near[OF assms, unfolded right_angle_def])

lemma raw_right_angle_far:
  assumes "2 < b0" "2 < b1" "2 < b2" "sqrt 2 < r" "1 \<le> nb"
  shows "raw_adf right_angle (b0,b1,b2) r nb =
     bump nb (bin_of nb 45) (bump nb (bin_of nb 45) (bump nb (bin_of nb 90) (replicate nb 0)))"
  by (simp add: raw_adf_three right_angle_def central_right_angle_far[OF assms, unfolded right_angle_def])

lemma bin_180: "bin_of 180 90 = 90" "bin_of 180 45 = 45" by (simp_all add: bin_of_def)

lemma foldl_plus_sum_list: "foldl (\<lambda>sum val. sum + val) a xs = a + sum_list (xs :: real list)"
  by (induction xs arbitrary: a) simp_all

lemma raw_adf_nonneg: "1 \<le> nb \<Longrightarrow> x \<in> set (raw_adf ps b r nb) \<Longrightarrow> 0 \<le> x"
  by (auto simp add: in_set_conv_nth length_raw_adf nth_raw_adf)

lemma raw_adf_total_zero:
  assumes "1 \<le> nb" "sum_list (raw_adf ps b r nb) = 0"
  shows "raw_adf ps b r nb = replicate nb 0"
proof -
  have "\<forall>x\<in>set (raw_adf ps b r nb). x = 0"
    using assms raw_adf_nonneg[OF assms(1)] by (simp add: sum_list_nonneg_eq_0_iff)
  thus ?thesis
    by (intro replicate_eqI) (simp_all add: length_raw_adf[OF assms(1)])
qed

lemma length_neighbors_at:
  assumes "i < length ps"
  shows "length (neighbors_at ps b r i) < length ps"
proof -
  have "i \<in> set [0..<length ps]" using assms by simp
  moreover have "\<not> (0 < mi_dist ps b i i \<and> mi_dist ps b i i < r)" by (simp add: mi_dist_self)
  ultimately have "length (filter (\<lambda>p. 0 < mi_dist ps b i p \<and> mi_dist ps b i p < r) [0..<length ps])
      < length [0..<length ps]"
    by (rule length_filter_less)
  thus ?thesis by (simp add: neighbors_at_eq)
qed

lemma triples_few: "length ps < 3 \<Longrightarrow> triples ps b r = []"
proof -
  assume a: "length ps < 3"
  have "set (triples ps b r) = {}"
  proof -
    have "False" if "i < length ps" "jIdx < kIdx" "kIdx < length (neighbors_at ps b r i)" for i jIdx kIdx
      using that a length_neighbors_at[OF that(1), of b r] by linarith
    thus ?thesis unfolding set_triples by blast
  qed
  thus ?thesis by simp
qed

lemma raw_adf_few: "1 \<le> nb \<Longrightarrow> length ps < 3 \<Longrightarrow> raw_adf ps b r nb = replicate nb 0"
  by (simp add: raw_adf_triples triples_few)

lemma theta_edges: "theta (fst (computeADF ps b r nb s)) = map (\<lambda>i. (real i * 180) / real nb) [0..<nb]"
  by (simp add: computeADF_def Let_def thetaBin_def)

lemma length_adf_out: "1 \<le> nb \<Longrightarrow> length (adf (fst (computeADF ps b r nb s))) = nb"
  by (simp add: computeADF_def Let_def length_raw_adf)

lemma clamp_cos_bounds: "- 1 \<le> clamp_cos c" "clamp_cos c \<le> 1"
  by (simp_all add: clamp_cos_def)

lemma theta_of_cos_overshoot: "c \<le> - 1 \<Longrightarrow> theta_of_cos c = 180"
  by (simp add: theta_of_cos_def clamp_cos_def max_def)

lemma theta_of_cos_range: "0 \<le> theta_of_cos c" "theta_of_cos c \<le> 180"
proof -
  have "0 \<le> arccos (clamp_cos c)" "arccos (clamp_cos c) \<le> pi"
    using clamp_cos_bounds[of c] by (simp_all add: arccos_lbound arccos_ubound)
  thus "0 \<le> theta_of_cos c" "theta_of_cos c \<le> 180"
    by (simp_all add: theta_of_cos_def field_simps)
qed

lemma computeADF_state_indep:
  "fst (computeADF ps b r nb s) = fst (computeADF ps b r nb s')"
  by (simp add: computeADF_def Let_def)

lemma computeADF_chart: "chartInstance (snd (computeADF ps b r nb s)) = chartInstance s"
  by (simp add: computeADF_def Let_def)

lemma mi_dist_right_angle_0_1: "mi_dist right_angle (10, 10, 10) 0 (Suc 0) = 1"
  by (simp add: mi_dist_def mi_disp_def right_angle_def wrap_axis_small)

lemma raw_right_angle_two_bins: "raw_adf right_angle (10, 10, 10) (6 / 5) 2 = [0, 2]"
  using sqrt2_gt by (simp add: raw_right_angle_near bin_of_def bump_def numeral_2_eq_2)

subsection \<open>Lemmas on the double-precision loop\<close>

lemma bin_code_eq: "bin_code x = int b \<longleftrightarrow> x = Some (int b)"
  by (cases x) (simp_all add: bin_code_def)

lemma pair_body_fp_bump:
  "pair_body_fp acos nb dt dl ns jIdx kIdx h =
     bump nb (bin_code (pair_bin_fp acos dt (dl ! nat (ns ! jIdx)) (dl ! nat (ns ! kIdx)))) h"
  by (simp add: pair_body_fp_def pair_bin_fp_def pair_theta_fp_def cos_fp_def bump_def Let_def
      bin_code_def split: option.splits)

lemma pair_loop_fp_pairs:
  "pair_loop_fp acos nb dt dl ns h =
     fold (\<lambda>(jIdx, kIdx). pair_body_fp acos nb dt dl ns jIdx kIdx) (pair_indices (length ns)) h"
  by (simp add: pair_loop_fp_def pair_indices_def fold_concat_map fold_map o_def)

lemma central_step_fp_visits:
  "central_step_fp acos ps b r nb i h =
     fold (\<lambda>t. bump nb (bin_code (triple_bin_fp acos nb ps b r t)))
          (map (Pair i) (pair_indices (length (neighbors_fp ps b r i)))) h"
  unfolding central_step_fp_def Let_def pair_loop_fp_pairs neighbors_fp_def[symmetric] fold_map
  by (rule fold_cong[OF refl refl]) (auto simp add: pair_body_fp_bump)

lemma raw_adf_fp_visits:
  "raw_adf_fp acos ps b r nb =
     fold (\<lambda>t. bump nb (bin_code (triple_bin_fp acos nb ps b r t))) (triples_fp ps b r)
          (replicate nb 0)"
proof -
  have "central_step_fp acos ps b r nb =
        (\<lambda>i. fold (\<lambda>t. bump nb (bin_code (triple_bin_fp acos nb ps b r t)))
          (map (Pair i) (pair_indices (length (neighbors_fp ps b r i)))))"
    by (intro ext) (rule central_step_fp_visits)
  thus ?thesis
    by (simp add: raw_adf_fp_def triples_fp_def fold_concat_map)
qed

lemma nth_raw_adf_fp:
  "bn < nb \<Longrightarrow>
   raw_adf_fp acos ps b r nb ! bn =
     2 * real (length (filter (\<lambda>t. triple_bin_fp acos nb ps b r t = Some (int bn))
                              (triples_fp ps b r)))"
  by (simp add: raw_adf_fp_visits nth_fold_bump bin_code_eq)

lemma length_raw_adf_fp: "length (raw_adf_fp acos ps b r nb) = nb"
  by (simp add: raw_adf_fp_visits length_fold_bump)

lemma set_triples_fp:
  "set (triples_fp ps b r) =
     {(i, jIdx, kIdx). i < length ps \<and> jIdx < kIdx \<and> kIdx < length (neighbors_fp ps b r i)}"
  by (auto simp add: triples_fp_def set_pair_indices)

lemma distinct_triples_fp: "distinct (triples_fp ps b r)"
  unfolding triples_fp_def by (rule distinct_tagged) (simp_all add: distinct_pair_indices)

lemma distinct_neighbors_fp: "distinct (neighbors_fp ps b r i)"
  by (simp add: neighbors_fp_def neighbors_of_eq distinct_map inj_on_def)

lemma rne_bounds: "of_int m - 1 / 2 < y \<Longrightarrow> y < of_int m + 1 / 2 \<Longrightarrow> rne y = m"
proof -
  assume a: "of_int m - 1 / 2 < y" "y < of_int m + 1 / 2"
  show ?thesis
  proof (cases "of_int m \<le> y")
    case True
    hence "\<lfloor>y\<rfloor> = m" using a by (simp add: floor_eq_iff)
    thus ?thesis using a by (simp add: rne_def Let_def)
  next
    case False
    hence "\<lfloor>y\<rfloor> = m - 1" using a by (simp add: floor_eq_iff)
    thus ?thesis using a False by (simp add: rne_def Let_def)
  qed
qed

lemma rne_of_int: "rne (of_int m) = m"
  by (rule rne_bounds) simp_all

lemma fl_0: "fl 0 = 0" by (simp add: fl_def)

lemma two_powr_neg_nat: "(2::real) powr of_int (- int k) = 1 / 2 ^ k"
  by (simp add: powr_minus powr_realpow field_simps)

lemma fl_eval:
  assumes "2 ^ 52 \<le> \<bar>x\<bar> * 2 ^ k" and "\<bar>x\<bar> * 2 ^ k < 2 ^ 53" and "k \<le> 1074"
  shows "fl x = of_int (rne (x * 2 ^ k)) / 2 ^ k"
proof -
  have x0: "x \<noteq> 0" using assms(1) by auto
  have lo: "(2::real) powr of_int (52 - int k) \<le> \<bar>x\<bar>"
  proof -
    have "(2::real) powr of_int (52 - int k) = 2 ^ 52 * (1 / 2 ^ k)"
      by (simp add: powr_diff powr_realpow field_simps)
    also have "\<dots> \<le> \<bar>x\<bar>" using assms(1) by (simp add: field_simps)
    finally show ?thesis .
  qed
  have hi: "\<bar>x\<bar> < (2::real) powr of_int (52 - int k + 1)"
  proof -
    have "(2::real) powr of_int (52 - int k + 1) = 2 ^ 53 * (1 / 2 ^ k)"
      by (simp add: powr_diff powr_add powr_realpow field_simps)
    moreover have "\<bar>x\<bar> < 2 ^ 53 * (1 / 2 ^ k)" using assms(2) by (simp add: field_simps)
    ultimately show ?thesis by simp
  qed
  have "\<lfloor>log 2 \<bar>x\<bar>\<rfloor> = 52 - int k"
    using x0 lo hi by (subst floor_log_eq_powr_iff) simp_all
  hence e: "max (- 1022) \<lfloor>log 2 \<bar>x\<bar>\<rfloor> - 52 = - int k"
    using assms(3) by simp
  show ?thesis
    using x0 unfolding fl_def e Let_def two_powr_neg_nat by simp
qed

lemma fl_1: "fl 1 = 1"
  by (subst fl_eval[where k = 52]) (simp_all add: rne_def Let_def)

lemma fl_m1: "fl (- 1) = - 1"
  by (subst fl_eval[where k = 52]) (simp_all add: rne_def Let_def)

lemma fl_180: "fl 180 = 180"
  by (subst fl_eval[where k = 45]) (simp_all add: rne_def Let_def)

lemma fl_180_div_169: "fl (180 / 169) = 1199183332731789 / 2 ^ 50"
  by (subst fl_eval[where k = 52]) (simp_all add: rne_def Let_def)

lemma fl_180_div_dtheta_169: "fl (180 / (1199183332731789 / 2 ^ 50)) = 5946158883012607 / 2 ^ 45"
  by (subst fl_eval[where k = 45]) (simp_all add: rne_def Let_def)

lemma fl_pi_times_180: "fl (884279719003555 / 2 ^ 48 * 180) = 4974073419394997 / 2 ^ 43"
  by (subst fl_eval[where k = 43]) (simp_all add: rne_def Let_def)

lemma fl_pi_180_div_pi: "fl (4974073419394997 / 2 ^ 43 / (884279719003555 / 2 ^ 48)) = 180"
  by (subst fl_eval[where k = 45]) (simp_all add: rne_def Let_def)

lemma fl_sqrt_3: "fl (sqrt 3) = 3900231685776981 / 2 ^ 51"
proof -
  have lo: "7800463371553962 - 1 / 2 < sqrt 3 * 2 ^ 52"
  proof -
    have "(7800463371553962 - 1 / 2) / 2 ^ 52 < sqrt 3"
      by (rule real_less_rsqrt) (simp add: power2_eq_square)
    thus ?thesis by (simp add: field_simps)
  qed
  have hi: "sqrt 3 * 2 ^ 52 < 7800463371553962 + 1 / 2"
  proof -
    have "sqrt 3 < (7800463371553962 + 1 / 2) / 2 ^ 52"
      by (rule real_less_lsqrt) (simp_all add: power2_eq_square)
    thus ?thesis by (simp add: field_simps)
  qed
  have r: "rne (sqrt 3 * 2 ^ 52) = 7800463371553962"
    using lo hi by (intro rne_bounds) simp_all
  have b1: "2 ^ 52 \<le> \<bar>sqrt 3\<bar> * 2 ^ 52" by simp
  have b2: "\<bar>sqrt 3\<bar> * 2 ^ 52 < 2 ^ 53"
  proof -
    have "sqrt 3 < 2" by (rule real_less_lsqrt) simp_all
    thus ?thesis by simp
  qed
  show ?thesis
  proof -
    have "fl (sqrt 3) = of_int (rne (sqrt 3 * 2 ^ 52)) / 2 ^ 52"
      using b1 b2 by (rule fl_eval) simp
    thus ?thesis unfolding r by simp
  qed
qed

lemma fl_norm_product_3: "fl (3900231685776981 / 2 ^ 51 * (3900231685776981 / 2 ^ 51)) = 6755399441055743 / 2 ^ 51"
  by (subst fl_eval[where k = 51]) (simp_all add: rne_def Let_def)

lemma fl_cos_overshoot: "fl (- 3 / (6755399441055743 / 2 ^ 51)) = - (4503599627370497 / 2 ^ 52)"
  by (subst fl_eval[where k = 52]) (simp_all add: rne_def Let_def)

lemma fl_2: "fl 2 = 2"
  by (subst fl_eval[where k = 51]) (simp_all add: rne_def Let_def)

lemma fl_m2: "fl (- 2) = - 2"
  by (subst fl_eval[where k = 51]) (simp_all add: rne_def Let_def)

lemma fl_3: "fl 3 = 3"
  by (subst fl_eval[where k = 51]) (simp_all add: rne_def Let_def)

lemma fl_m3: "fl (- 3) = - 3"
  by (subst fl_eval[where k = 51]) (simp_all add: rne_def Let_def)

lemma fl_4: "fl 4 = 4"
  by (subst fl_eval[where k = 50]) (simp_all add: rne_def Let_def)

lemma fl_hundredth: "fl (1 / 100) = 5764607523034235 / 2 ^ 59"
  by (subst fl_eval[where k = 59]) (simp_all add: rne_def Let_def)

lemma fl_m_hundredth: "fl (- (1 / 100)) = - (5764607523034235 / 2 ^ 59)"
  by (subst fl_eval[where k = 59]) (simp_all add: rne_def Let_def)

lemma fl_fiftieth: "fl (1 / 50) = 5764607523034235 / 2 ^ 58"
  by (subst fl_eval[where k = 58]) (simp_all add: rne_def Let_def)

lemma fl_m_fiftieth: "fl (- (1 / 50)) = - (5764607523034235 / 2 ^ 58)"
  by (subst fl_eval[where k = 58]) (simp_all add: rne_def Let_def)

lemmas fl_small = fl_0 fl_1 fl_m1 fl_2 fl_m2 fl_3 fl_m3 fl_4 fl_180

lemma wrap_axis_fp_100:
  "wrap_axis_fp 100 0 = 0" "wrap_axis_fp 100 1 = 1" "wrap_axis_fp 100 (- 1) = - 1"
  "wrap_axis_fp 100 2 = 2" "wrap_axis_fp 100 (- 2) = - 2"
  by (simp_all add: wrap_axis_fp_def fl_small fl_hundredth fl_m_hundredth fl_fiftieth
      fl_m_fiftieth Math_round_def)

lemma dtheta_fp_169: "dtheta_fp 169 = 1199183332731789 / 2 ^ 50"
proof -
  define d :: real where "d = 1199183332731789 / 2 ^ 50"
  have a: "fl (180 / 169) = d" unfolding d_def by (rule fl_180_div_169)
  have b: "fl d = d"
    unfolding d_def by (subst fl_eval[where k = 52]) (simp_all add: rne_def Let_def)
  have "dtheta_fp 169 = d"
    by (simp add: dtheta_fp_def thetaBin_fp_def nth_map_upt fl_small a b del: upt_Suc)
  thus ?thesis by (simp only: d_def)
qed

lemma dtheta_fp_180: "dtheta_fp 180 = 1"
  by (simp add: dtheta_fp_def thetaBin_fp_def nth_map_upt fl_small del: upt_Suc)

lemma quotient_169: "fl (180 / dtheta_fp 169) = 5946158883012607 / 2 ^ 45"
  unfolding dtheta_fp_169 by (rule fl_180_div_dtheta_169)

lemma index_169: "\<lfloor>fl (180 / dtheta_fp 169)\<rfloor> = 168"
  unfolding quotient_169 by simp

lemma index_180: "\<lfloor>fl (180 / dtheta_fp 180)\<rfloor> = 180"
  by (simp add: dtheta_fp_180 fl_small)

lemma theta_of_pi: "fl (fl (Math_PI * 180) / Math_PI) = 180"
  unfolding Math_PI_def fl_pi_times_180 by (rule fl_pi_180_div_pi)

lemma dot_fp_units:
  "dot_fp (1, 0, 0) (1, 0, 0) = 1" "dot_fp (- 1, 0, 0) (- 1, 0, 0) = 1"
  "dot_fp (1, 0, 0) (- 1, 0, 0) = - 1" "dot_fp (0, 0, 0) (0, 0, 0) = 0"
  "dot_fp (2, 0, 0) (2, 0, 0) = 4" "dot_fp (- 2, 0, 0) (- 2, 0, 0) = 4"
  by (simp_all add: fl_small)

lemma sqrt_4: "sqrt 4 = 2"
  using real_sqrt_abs[of 2] by simp

lemma delta_fp_straight_line:
  "delta_fp straight_line (100, 100, 100) 0 = [(0, 0, 0), (1, 0, 0), (- 1, 0, 0)]"
  "delta_fp straight_line (100, 100, 100) (Suc 0) = [(- 1, 0, 0), (0, 0, 0), (- 2, 0, 0)]"
  "delta_fp straight_line (100, 100, 100) 2 = [(1, 0, 0), (2, 0, 0), (0, 0, 0)]"
  by (simp_all add: delta_fp_def straight_line_def fl_small wrap_axis_fp_100)

lemma neighbors_fp_straight_line:
  "neighbors_fp straight_line (100, 100, 100) (3 / 2) 0 = [1, 2]"
  "neighbors_fp straight_line (100, 100, 100) (3 / 2) (Suc 0) = [0]"
  "neighbors_fp straight_line (100, 100, 100) (3 / 2) 2 = [0]"
  by (simp_all add: neighbors_fp_def delta_fp_straight_line distances_fp_def dot_fp_units
      fl_small sqrt_4 neighbors_of_def)

lemma pair_theta_fp_opposite:
  "pair_theta_fp acos (1, 0, 0) (- 1, 0, 0) = Some (fl (fl (acos (- 1) * 180) / Math_PI))"
  by (simp add: pair_theta_fp_def cos_fp_def dot_fp_units fl_small Math_acos_def)

lemma acos_ref_m1: "acos_ref (- 1) = Math_PI" by (simp add: acos_ref_def)

lemma pair_theta_fp_opposite_180:
  "acos (- 1) = Math_PI \<Longrightarrow> pair_theta_fp acos (1, 0, 0) (- 1, 0, 0) = Some 180"
  by (simp add: pair_theta_fp_opposite theta_of_pi)

lemma pair_loop_fp_single: "pair_loop_fp acos nb dt dl [n] h = h"
  by (simp add: pair_loop_fp_def)

lemma pair_loop_fp_two:
  "pair_loop_fp acos nb dt dl [m, n] h = pair_body_fp acos nb dt dl [m, n] 0 (Suc 0) h"
  by (simp add: pair_loop_fp_def)

lemma nbrs_fp_straight_line:
  "neighbors_of (distances_fp [(0, 0, 0), (1, 0, 0), (- 1, 0, 0)]) (3 / 2) = [1, 2]"
  "neighbors_of (distances_fp [(- 1, 0, 0), (0, 0, 0), (- 2, 0, 0)]) (3 / 2) = [0]"
  "neighbors_of (distances_fp [(1, 0, 0), (2, 0, 0), (0, 0, 0)]) (3 / 2) = [0]"
  by (simp_all add: distances_fp_def dot_fp_units fl_small sqrt_4 neighbors_of_def)

lemma central_fp_straight_line:
  "central_step_fp acos straight_line (100, 100, 100) (3 / 2) nb 0 h =
     bump nb (bin_code (pair_bin_fp acos (dtheta_fp nb) (1, 0, 0) (- 1, 0, 0))) h"
  "central_step_fp acos straight_line (100, 100, 100) (3 / 2) nb (Suc 0) h = h"
  "central_step_fp acos straight_line (100, 100, 100) (3 / 2) nb 2 h = h"
  by (simp_all add: central_step_fp_def delta_fp_straight_line nbrs_fp_straight_line
      pair_loop_fp_single pair_loop_fp_two pair_body_fp_bump)

lemma raw_adf_fp_three:
  "length ps = 3 \<Longrightarrow> raw_adf_fp acos ps b r nb =
     central_step_fp acos ps b r nb 2 (central_step_fp acos ps b r nb (Suc 0)
       (central_step_fp acos ps b r nb 0 (replicate nb 0)))"
  by (simp add: raw_adf_fp_def upt_rec numeral_3_eq_3 numeral_2_eq_2)

lemma raw_adf_fp_straight_line:
  "raw_adf_fp acos straight_line (100, 100, 100) (3 / 2) nb =
     bump nb (bin_code (pair_bin_fp acos (dtheta_fp nb) (1, 0, 0) (- 1, 0, 0))) (replicate nb 0)"
proof -
  have "length straight_line = 3" by (simp add: straight_line_def)
  thus ?thesis by (simp only: raw_adf_fp_three central_fp_straight_line)
qed

lemma pair_bin_fp_opposite:
  assumes "acos (- 1) = Math_PI"
  shows "pair_bin_fp acos (dtheta_fp 169) (1, 0, 0) (- 1, 0, 0) = Some 168"
    and "pair_bin_fp acos (dtheta_fp 180) (1, 0, 0) (- 1, 0, 0) = Some 180"
  using assms by (simp_all add: pair_bin_fp_def pair_theta_fp_opposite_180 index_169 index_180)

lemma raw_169: 
  assumes "acos (- 1) = Math_PI"
  shows "raw_adf_fp acos straight_line (100, 100, 100) (3 / 2) 169 = (replicate 169 0)[168 := 2]"
  using assms by (simp add: raw_adf_fp_straight_line pair_bin_fp_opposite bin_code_def bump_def)

lemma raw_180: 
  assumes "acos (- 1) = Math_PI"
  shows "raw_adf_fp acos straight_line (100, 100, 100) (3 / 2) 180 = replicate 180 0"
  using assms by (simp add: raw_adf_fp_straight_line pair_bin_fp_opposite bin_code_def bump_def)

lemma dot_fp_diag:
  "dot_fp (1, 1, 1) (1, 1, 1) = 3" "dot_fp (- 1, - 1, - 1) (- 1, - 1, - 1) = 3"
  "dot_fp (1, 1, 1) (- 1, - 1, - 1) = - 3"
  by (simp_all add: fl_small)

lemma cos_fp_diag: "cos_fp (1, 1, 1) (- 1, - 1, - 1) = - (4503599627370497 / 2 ^ 52)"
proof -
  define n :: real where "n = 3900231685776981 / 2 ^ 51"
  define p :: real where "p = 6755399441055743 / 2 ^ 51"
  have a: "fl (sqrt 3) = n" unfolding n_def by (rule fl_sqrt_3)
  have b: "fl (n * n) = p" unfolding n_def p_def by (rule fl_norm_product_3)
  have c: "fl (- 3 / p) = - (4503599627370497 / 2 ^ 52)" unfolding p_def by (rule fl_cos_overshoot)
  show ?thesis
    unfolding cos_fp_def dot_fp_diag a b by (rule c)
qed

lemma norm_fp_diag_nonzero: "fl (sqrt 3) \<noteq> 0"
  unfolding fl_sqrt_3 by simp

lemma pair_bin_fp_index:
  "pair_theta_fp acos vecIJ vecIK = Some th \<Longrightarrow>
   pair_bin_fp acos dt vecIJ vecIK = Some \<lfloor>fl (th / dt)\<rfloor>"
  by (simp add: pair_bin_fp_def)

lemma fl_8: "fl 8 = 8"
  by (subst fl_eval[where k = 49]) (simp_all add: rne_def Let_def)

lemma fl_12: "fl 12 = 12"
  by (subst fl_eval[where k = 49]) (simp_all add: rne_def Let_def)

lemma fl_sqrt_12: "fl (sqrt 12) = 3900231685776981 / 2 ^ 50"
proof -
  have lo: "7800463371553962 - 1 / 2 < sqrt 12 * 2 ^ 51"
  proof -
    have "(7800463371553962 - 1 / 2) / 2 ^ 51 < sqrt 12"
      by (rule real_less_rsqrt) (simp add: power2_eq_square)
    thus ?thesis by (simp add: field_simps)
  qed
  have hi: "sqrt 12 * 2 ^ 51 < 7800463371553962 + 1 / 2"
  proof -
    have "sqrt 12 < (7800463371553962 + 1 / 2) / 2 ^ 51"
      by (rule real_less_lsqrt) (simp_all add: power2_eq_square)
    thus ?thesis by (simp add: field_simps)
  qed
  have r: "rne (sqrt 12 * 2 ^ 51) = 7800463371553962"
    using lo hi by (intro rne_bounds) simp_all
  have b1: "2 ^ 52 \<le> \<bar>sqrt 12\<bar> * 2 ^ 51"
  proof -
    have "2 \<le> sqrt 12" by (rule real_le_rsqrt) simp
    thus ?thesis by simp
  qed
  have b2: "\<bar>sqrt 12\<bar> * 2 ^ 51 < 2 ^ 53"
  proof -
    have "sqrt 12 < 4" by (rule real_less_lsqrt) simp_all
    thus ?thesis by simp
  qed
  have "fl (sqrt 12) = of_int (rne (sqrt 12 * 2 ^ 51)) / 2 ^ 51"
    using b1 b2 by (rule fl_eval) simp
  thus ?thesis unfolding r by simp
qed

lemma dot_fp_diag2:
  "dot_fp (2, 2, 2) (2, 2, 2) = 12" "dot_fp (- 2, - 2, - 2) (- 2, - 2, - 2) = 12"
  by (simp_all add: fl_small fl_8 fl_12)

lemma delta_fp_diagonal:
  "delta_fp diagonal (100, 100, 100) 0 = [(0, 0, 0), (1, 1, 1), (- 1, - 1, - 1)]"
  "delta_fp diagonal (100, 100, 100) (Suc 0) = [(- 1, - 1, - 1), (0, 0, 0), (- 2, - 2, - 2)]"
  "delta_fp diagonal (100, 100, 100) 2 = [(1, 1, 1), (2, 2, 2), (0, 0, 0)]"
  by (simp_all add: delta_fp_def diagonal_def fl_small wrap_axis_fp_100)

lemma nbrs_fp_diagonal:
  "neighbors_of (distances_fp [(0, 0, 0), (1, 1, 1), (- 1, - 1, - 1)]) 2 = [1, 2]"
  "neighbors_of (distances_fp [(- 1, - 1, - 1), (0, 0, 0), (- 2, - 2, - 2)]) 2 = [0]"
  "neighbors_of (distances_fp [(1, 1, 1), (2, 2, 2), (0, 0, 0)]) 2 = [0]"
  by (simp_all add: distances_fp_def fl_small fl_8 fl_12 fl_sqrt_3 fl_sqrt_12 neighbors_of_def)

lemma pair_theta_fp_overshoot:
  assumes "fl (sqrt (dot_fp vecIJ vecIJ)) \<noteq> 0" and "fl (sqrt (dot_fp vecIK vecIK)) \<noteq> 0"
    and "cos_fp vecIJ vecIK \<le> - 1"
  shows "pair_theta_fp acos vecIJ vecIK = Some (fl (fl (acos (- 1) * 180) / Math_PI))"
proof -
  have "min 1 (max (- 1) (cos_fp vecIJ vecIK)) = - 1" using assms(3) by simp
  thus ?thesis using assms(1,2) by (simp add: pair_theta_fp_def Math_acos_def)
qed

lemma cos_fp_diag_less: "cos_fp (1, 1, 1) (- 1, - 1, - 1) < - 1"
  unfolding cos_fp_diag by simp

lemma pair_theta_fp_diag:
  "pair_theta_fp acos (1, 1, 1) (- 1, - 1, - 1) = Some (fl (fl (acos (- 1) * 180) / Math_PI))"
proof (rule pair_theta_fp_overshoot)
  show "fl (sqrt (dot_fp (1, 1, 1) (1, 1, 1))) \<noteq> 0"
    unfolding dot_fp_diag by (rule norm_fp_diag_nonzero)
  show "fl (sqrt (dot_fp (- 1, - 1, - 1) (- 1, - 1, - 1))) \<noteq> 0"
    unfolding dot_fp_diag by (rule norm_fp_diag_nonzero)
  show "cos_fp (1, 1, 1) (- 1, - 1, - 1) \<le> - 1" using cos_fp_diag_less by simp
qed

lemma pair_bin_fp_diag:
  "acos (- 1) = Math_PI \<Longrightarrow> pair_bin_fp acos (dtheta_fp 169) (1, 1, 1) (- 1, - 1, - 1) = Some 168"
  by (simp add: pair_bin_fp_def pair_theta_fp_diag theta_of_pi index_169)

lemma central_fp_diagonal:
  "central_step_fp acos diagonal (100, 100, 100) 2 nb 0 h =
     bump nb (bin_code (pair_bin_fp acos (dtheta_fp nb) (1, 1, 1) (- 1, - 1, - 1))) h"
  "central_step_fp acos diagonal (100, 100, 100) 2 nb (Suc 0) h = h"
  "central_step_fp acos diagonal (100, 100, 100) 2 nb 2 h = h"
  by (simp_all add: central_step_fp_def delta_fp_diagonal nbrs_fp_diagonal
      pair_loop_fp_single pair_loop_fp_two pair_body_fp_bump)

lemma raw_adf_fp_diagonal:
  "acos (- 1) = Math_PI \<Longrightarrow>
   raw_adf_fp acos diagonal (100, 100, 100) 2 169 = (replicate 169 0)[168 := 2]"
proof -
  assume a: "acos (- 1) = Math_PI"
  have "length diagonal = 3" by (simp add: diagonal_def)
  hence "raw_adf_fp acos diagonal (100, 100, 100) 2 169 =
     bump 169 (bin_code (pair_bin_fp acos (dtheta_fp 169) (1, 1, 1) (- 1, - 1, - 1))) (replicate 169 0)"
    by (simp only: raw_adf_fp_three central_fp_diagonal)
  thus ?thesis using a by (simp add: pair_bin_fp_diag bin_code_def bump_def)
qed

lemma pair_body_fp_clamped:
  "pair_body_fp acos numBins dtheta delta neighbors jIdx kIdx hist =
       (let vecIJ = delta ! nat (neighbors ! jIdx);
            vecIK = delta ! nat (neighbors ! kIdx)
        in if fl (sqrt (dot_fp vecIJ vecIJ)) = 0 \<or> fl (sqrt (dot_fp vecIK vecIK)) = 0 then hist
           else bump numBins
                  \<lfloor>fl (fl (fl (acos (min 1 (max (- 1) (cos_fp vecIJ vecIK))) * 180) / Math_PI)
                       / dtheta)\<rfloor> hist)"
  by (simp add: pair_body_fp_def cos_fp_def Math_acos_def bump_def Let_def)

lemma pair_body_fp_diag:
  assumes "acos (- 1) = Math_PI"
  shows "pair_body_fp acos 169 (dtheta_fp 169) [(1, 1, 1), (- 1, - 1, - 1)] [0, 1] 0 1 hist
         = hist[168 := hist ! 168 + 2]"
  using assms by (simp add: pair_body_fp_bump pair_bin_fp_diag bin_code_def bump_def)

lemma rne_err: "\<bar>of_int (rne y) - y\<bar> \<le> 1 / 2"
proof -
  have "of_int \<lfloor>y\<rfloor> \<le> y" "y < of_int \<lfloor>y\<rfloor> + 1" by linarith+
  thus ?thesis by (auto simp add: rne_def Let_def)
qed

lemma two_powr_shift: "2 ^ n * (2::real) powr of_int (E - int n) = 2 powr of_int E"
proof -
  have "(2::real) ^ n = 2 powr of_int (int n)" by (simp add: powr_realpow)
  hence "2 ^ n * (2::real) powr of_int (E - int n) = 2 powr (of_int (int n) + of_int (E - int n))"
    by (simp only: powr_add)
  thus ?thesis by simp
qed

lemma floor_log2_eq:
  assumes "2 powr of_int k \<le> y" and "y < 2 powr of_int (k + 1)"
  shows "\<lfloor>log 2 y\<rfloor> = k"
proof -
  have "0 < (2::real) powr of_int k" by simp
  hence "0 < y" using assms(1) by linarith
  thus ?thesis using assms by (subst floor_log_eq_powr_iff) simp_all
qed

lemma fl_idem: "fl (fl x) = fl x"
proof (cases "x = 0")
  case True
  thus ?thesis by (simp add: fl_def)
next
  case x0: False
  define L where "L = \<lfloor>log 2 \<bar>x\<bar>\<rfloor>"
  define E where "E = max (- 1022) L"
  define q :: real where "q = 2 powr of_int (E - 52)"
  define m where "m = rne (x / q)"
  have qpos: "0 < q" by (simp add: q_def)
  have flx: "fl x = of_int m * q"
    using x0 by (simp add: fl_def Let_def L_def E_def q_def m_def)
  have q52: "2 ^ 52 * q = 2 powr of_int E"
    unfolding q_def using two_powr_shift[of 52 E] by simp
  have q53: "2 ^ 53 * q = 2 powr of_int (E + 1)"
  proof -
    have "(2::real) powr of_int (E + 1) = 2 powr (of_int E + 1)" by simp
    also have "\<dots> = 2 powr of_int E * 2 powr 1" by (rule powr_add)
    also have "\<dots> = 2 ^ 52 * q * 2" by (simp only: q52 powr_one_eq_one) simp
    finally show ?thesis by simp
  qed
  have xpos: "0 < \<bar>x\<bar>" using x0 by simp
  have xlo: "2 powr of_int L \<le> \<bar>x\<bar>" and xhi: "\<bar>x\<bar> < 2 powr of_int (L + 1)"
    using floor_log_eq_powr_iff[OF xpos, of 2 L] by (simp_all add: L_def)
  have EL: "L \<le> E" "- 1022 \<le> E" by (simp_all add: E_def)
  have thi: "\<bar>x / q\<bar> < 2 ^ 53"
  proof -
    have "(2::real) powr of_int (L + 1) \<le> 2 powr of_int (E + 1)"
      using EL(1) by (intro powr_mono) simp_all
    hence "\<bar>x\<bar> < 2 powr of_int (E + 1)" using xhi by linarith
    hence "\<bar>x\<bar> < 2 ^ 53 * q" by (simp only: q53)
    thus ?thesis using qpos by (simp add: field_simps abs_mult)
  qed
  have mhi: "\<bar>m\<bar> \<le> 2 ^ 53"
  proof -
    have "\<bar>of_int m - x / q\<bar> \<le> 1 / 2" unfolding m_def by (rule rne_err)
    hence "\<bar>real_of_int m\<bar> < 2 ^ 53 + 1" using thi by linarith
    hence "real_of_int \<bar>m\<bar> < real_of_int (2 ^ 53 + 1)" by simp
    hence "\<bar>m\<bar> < 2 ^ 53 + 1" by (simp only: of_int_less_iff)
    thus ?thesis by simp
  qed
  show ?thesis
  proof (cases "m = 0")
    case True
    hence "fl x = 0" by (simp add: flx)
    thus ?thesis by (simp add: fl_0)
  next
    case m0: False
    define y where "y = of_int m * q"
    have y0: "y \<noteq> 0" using m0 qpos by (simp add: y_def)
    have yabs: "\<bar>y\<bar> = of_int \<bar>m\<bar> * q" using qpos by (simp add: y_def abs_mult)
    show ?thesis
    proof (cases "\<bar>m\<bar> = 2 ^ 53")
      case top: True
      have "\<bar>y\<bar> = 2 powr of_int (E + 1)" unfolding yabs top using q53 by simp
      hence lg: "\<lfloor>log 2 \<bar>y\<bar>\<rfloor> = E + 1"
        by (intro floor_log2_eq) (simp_all add: powr_less_cancel_iff)
      have e': "max (- 1022) \<lfloor>log 2 \<bar>y\<bar>\<rfloor> - 52 = E - 52 + 1" using EL(2) by (simp add: lg)
      have q': "(2::real) powr of_int (E - 52 + 1) = 2 * q"
      proof -
        have "(2::real) powr of_int (E - 52 + 1) = 2 powr (of_int (E - 52) + 1)" by simp
        also have "\<dots> = 2 powr of_int (E - 52) * 2 powr 1" by (rule powr_add)
        finally show ?thesis by (simp add: q_def)
      qed
      have "m = 2 ^ 53 \<or> m = - (2 ^ 53)" using top by linarith
      hence "m = 2 * 2 ^ 52 \<or> m = 2 * (- (2 ^ 52))" by simp
      then obtain h where h: "m = 2 * h" by blast
      have "y / (2 * q) = of_int h" using qpos by (simp add: y_def h)
      hence "rne (y / (2 * q)) = h" by (simp add: rne_of_int)
      moreover have "fl y = (let e = max (- 1022) \<lfloor>log 2 \<bar>y\<bar>\<rfloor> - 52
                  in of_int (rne (y / 2 powr of_int e)) * 2 powr of_int e)"
        using y0 by (simp only: fl_def if_False)
      ultimately have "fl y = of_int h * (2 * q)" by (simp only: Let_def e' q')
      also have "\<dots> = y" by (simp add: y_def h)
      finally show ?thesis by (simp add: flx y_def)
    next
      case nt: False
      hence mlt: "\<bar>m\<bar> < 2 ^ 53" using mhi by linarith
      have same: "max (- 1022) \<lfloor>log 2 \<bar>y\<bar>\<rfloor> = E"
      proof (cases "2 ^ 52 \<le> \<bar>m\<bar>")
        case True
        have "2 powr of_int E \<le> \<bar>y\<bar>"
        proof -
          have "(2::real) ^ 52 \<le> of_int \<bar>m\<bar>" using True by simp
          hence "2 ^ 52 * q \<le> of_int \<bar>m\<bar> * q"
            using qpos by (intro mult_right_mono) simp_all
          thus ?thesis by (simp only: q52 yabs)
        qed
        moreover have "\<bar>y\<bar> < 2 powr of_int (E + 1)"
        proof -
          have "real_of_int \<bar>m\<bar> < 2 ^ 53" using mlt by simp
          hence "of_int \<bar>m\<bar> * q < 2 ^ 53 * q"
            using qpos by (intro mult_strict_right_mono) simp_all
          thus ?thesis by (simp only: q53 yabs)
        qed
        ultimately have "\<lfloor>log 2 \<bar>y\<bar>\<rfloor> = E" by (rule floor_log2_eq)
        thus ?thesis using EL(2) by simp
      next
        case False
        hence msmall: "\<bar>m\<bar> < 2 ^ 52" by simp
        have Eeq: "E = - 1022"
        proof (rule ccontr)
          assume "E \<noteq> - 1022"
          hence "E = L" using EL by (simp add: E_def max_def split: if_splits)
          hence "2 ^ 52 * q \<le> \<bar>x\<bar>" using xlo by (simp only: q52)
          hence "2 ^ 52 \<le> \<bar>x / q\<bar>" using qpos by (simp add: field_simps abs_mult)
          moreover have "\<bar>of_int m - x / q\<bar> \<le> 1 / 2" unfolding m_def by (rule rne_err)
          ultimately have "2 ^ 52 - 1 < \<bar>real_of_int m\<bar>" by linarith
          hence "real_of_int (2 ^ 52 - 1) < real_of_int \<bar>m\<bar>" by simp
          hence "2 ^ 52 - 1 < \<bar>m\<bar>" by (simp only: of_int_less_iff)
          thus False using msmall by simp
        qed
        have "\<bar>y\<bar> < 2 powr of_int E"
        proof -
          have "real_of_int \<bar>m\<bar> < 2 ^ 52" using msmall by simp
          hence "of_int \<bar>m\<bar> * q < 2 ^ 52 * q"
            using qpos by (intro mult_strict_right_mono) simp_all
          thus ?thesis by (simp only: q52 yabs)
        qed
        hence "log 2 \<bar>y\<bar> < of_int E"
          using y0 by (simp add: log_less_iff)
        hence "\<lfloor>log 2 \<bar>y\<bar>\<rfloor> < E" by (simp add: floor_less_iff)
        thus ?thesis using Eeq by simp
      qed
      have "y / q = of_int m" using qpos by (simp add: y_def)
      moreover have "fl y = (let e = max (- 1022) \<lfloor>log 2 \<bar>y\<bar>\<rfloor> - 52
                  in of_int (rne (y / 2 powr of_int e)) * 2 powr of_int e)"
        using y0 by (simp only: fl_def if_False)
      ultimately have "fl y = of_int m * q"
        by (simp only: Let_def same q_def[symmetric] rne_of_int)
      thus ?thesis by (simp add: flx y_def)
    qed
  qed
qed

lemma dtheta_fp_eq: "1 \<le> n \<Longrightarrow> dtheta_fp n = fl (180 / real n)"
  by (simp add: dtheta_fp_def thetaBin_fp_def nth_map_upt fl_small fl_idem del: upt_Suc)

section \<open>The properties\<close>

text \<open>
  C1. For a central particle \<open>i\<close>, the neighbour list that \<open>computeADF\<close> builds holds
  exactly the indices \<open>p\<close> whose minimum-image distance \<open>d\<close> from \<open>i\<close> satisfies
  \<open>0 < d < rMax\<close>. The distance of \<open>i\<close> from itself is 0, so \<open>i\<close> is never its own
  neighbour, and a particle at distance exactly \<open>rMax\<close> is not a neighbour.
\<close>

theorem neighbor_set_half_open:
  assumes "i < length positions" and "valid_box boxSize"
  shows "central_step positions boxSize rMax numBins i h =
           pair_loop numBins (dtheta_of numBins) (delta_of positions boxSize i)
             (neighbors_at positions boxSize rMax i) h
         \<and> (\<forall>p<length positions.
               distances_of (delta_of positions boxSize i) ! p = mi_dist positions boxSize i p)
         \<and> set (neighbors_at positions boxSize rMax i) =
           int ` {p. p < length positions \<and> 0 < mi_dist positions boxSize i p
                     \<and> mi_dist positions boxSize i p < rMax}
         \<and> mi_dist positions boxSize i i = 0
         \<and> int i \<notin> set (neighbors_at positions boxSize rMax i)
         \<and> (\<forall>p. mi_dist positions boxSize i p = rMax
                  \<longrightarrow> int p \<notin> set (neighbors_at positions boxSize rMax i))"
proof (intro conjI allI impI)
  show "central_step positions boxSize rMax numBins i h =
           pair_loop numBins (dtheta_of numBins) (delta_of positions boxSize i)
             (neighbors_at positions boxSize rMax i) h"
    by (simp add: central_step_def Let_def neighbors_at_def)
  show "distances_of (delta_of positions boxSize i) ! p = mi_dist positions boxSize i p"
    if "p < length positions" for p
    using that by (rule nth_distances_of)
  show "set (neighbors_at positions boxSize rMax i) =
           int ` {p. p < length positions \<and> 0 < mi_dist positions boxSize i p
                     \<and> mi_dist positions boxSize i p < rMax}"
    by (auto simp add: neighbors_at_eq)
  show "mi_dist positions boxSize i i = 0" by (rule mi_dist_self)
  show "int i \<notin> set (neighbors_at positions boxSize rMax i)"
    by (simp add: neighbors_at_mem mi_dist_self)
  show "int p \<notin> set (neighbors_at positions boxSize rMax i)"
    if "mi_dist positions boxSize i p = rMax" for p
    using that by (simp add: neighbors_at_mem)
qed

theorem neighbor_set_half_open_witness:
  "(0::nat) < length right_angle \<and> valid_box (10, 10, 10)
   \<and> mi_dist right_angle (10, 10, 10) 0 1 = 1
   \<and> int 1 \<notin> set (neighbors_at right_angle (10, 10, 10) 1 0)
   \<and> int 0 \<notin> set (neighbors_at right_angle (10, 10, 10) 1 0)"
proof -
  have h1: "(0::nat) < length right_angle" by (simp add: right_angle_def)
  have h2: "valid_box (10, 10, 10)" by simp
  have d: "mi_dist right_angle (10, 10, 10) 0 1 = 1" using mi_dist_right_angle_0_1 by simp
  from neighbor_set_half_open[where rMax = 1 and numBins = 1 and h = "[]", OF h1 h2] d h1 h2
  show ?thesis by blast
qed

text \<open>
  C2. On every axis the raw displacement \<open>d\<close> is replaced by
  \<open>d - boxSize * round (d / boxSize)\<close>, for every particle relative to the central one,
  and both the distances and the vectors of the pair loop are taken from these wrapped
  displacements. With the box \<open>(10, 10, 10)\<close> the particles at \<open>(0.5, 5, 5)\<close> and
  \<open>(9.5, 5, 5)\<close> are at distance 1 and are neighbours of each other when \<open>rMax = 2\<close>.
\<close>

theorem minimum_image_rule:
  "pbc (b0, b1, b2) (d0, d1, d2) =
     (d0 - b0 * of_int (round (d0 / b0)), d1 - b1 * of_int (round (d1 / b1)),
      d2 - b2 * of_int (round (d2 / b2)))
   \<and> delta_of positions boxSize i =
       map (\<lambda>pos. pbc boxSize (sub3 pos (positions ! i))) positions
   \<and> central_step positions boxSize rMax numBins i h =
       pair_loop numBins (dtheta_of numBins) (delta_of positions boxSize i)
         (neighbors_of (distances_of (delta_of positions boxSize i)) rMax) h
   \<and> delta_of pbc_pair (10, 10, 10) 0 = [(0, 0, 0), (- 1, 0, 0)]
   \<and> distances_of (delta_of pbc_pair (10, 10, 10) 0) = [0, 1]
   \<and> neighbors_at pbc_pair (10, 10, 10) 2 0 = [1]
   \<and> neighbors_at pbc_pair (10, 10, 10) 2 1 = [0]"
proof (intro conjI)
  show "pbc (b0, b1, b2) (d0, d1, d2) =
     (d0 - b0 * of_int (round (d0 / b0)), d1 - b1 * of_int (round (d1 / b1)),
      d2 - b2 * of_int (round (d2 / b2)))"
    by (simp add: wrap_axis_def Math_round_def round_def)
  show "delta_of positions boxSize i =
       map (\<lambda>pos. pbc boxSize (sub3 pos (positions ! i))) positions"
    by (simp add: delta_of_def)
  show "central_step positions boxSize rMax numBins i h =
       pair_loop numBins (dtheta_of numBins) (delta_of positions boxSize i)
         (neighbors_of (distances_of (delta_of positions boxSize i)) rMax) h"
    by (simp add: central_step_def Let_def)
  have d0: "delta_of pbc_pair (10, 10, 10) 0 = [(0, 0, 0), (- 1, 0, 0)]"
    by (simp add: delta_of_def pbc_pair_def wrap_axis_def Math_round_def)
  have d1: "delta_of pbc_pair (10, 10, 10) (Suc 0) = [(1, 0, 0), (0, 0, 0)]"
    by (simp add: delta_of_def pbc_pair_def wrap_axis_def Math_round_def)
  show "delta_of pbc_pair (10, 10, 10) 0 = [(0, 0, 0), (- 1, 0, 0)]" by (rule d0)
  show "distances_of (delta_of pbc_pair (10, 10, 10) 0) = [0, 1]"
    by (simp add: d0 distances_of_def)
  show "neighbors_at pbc_pair (10, 10, 10) 2 0 = [1]"
    by (simp add: neighbors_at_def d0 distances_of_def neighbors_of_def)
  show "neighbors_at pbc_pair (10, 10, 10) 2 1 = [0]"
    by (simp add: neighbors_at_def d1 distances_of_def neighbors_of_def)
qed

text \<open>
  C3, as stated, fails in the double arithmetic of the code. With 169 bins \<open>dtheta\<close> is
  the double \<open>1199183332731789 / 2^50\<close>, and \<open>180 / dtheta\<close> rounds to
  \<open>5946158883012607 / 2^45\<close>, which is below 169. For the particles \<open>(5, 5, 5)\<close>,
  \<open>(6, 5, 5)\<close> and \<open>(4, 5, 5)\<close>, the box \<open>(100, 100, 100)\<close> and \<open>rMax = 1.5\<close>, the two
  neighbours of the first particle are at an angle of exactly 180 degrees, and that
  pair is counted in bin 168.
\<close>

theorem pair_binning_counterexample:
  "delta_fp straight_line (100, 100, 100) 0 = [(0, 0, 0), (1, 0, 0), (- 1, 0, 0)]
   \<and> neighbors_fp straight_line (100, 100, 100) (3 / 2) 0 = [1, 2]
   \<and> pair_theta_fp acos_ref (1, 0, 0) (- 1, 0, 0) = Some 180
   \<and> dtheta_fp 169 = 1199183332731789 / 2 ^ 50
   \<and> fl (180 / dtheta_fp 169) = 5946158883012607 / 2 ^ 45
   \<and> pair_bin_fp acos_ref (dtheta_fp 169) (1, 0, 0) (- 1, 0, 0) = Some 168
   \<and> raw_adf_fp acos_ref straight_line (100, 100, 100) (3 / 2) 169 = (replicate 169 0)[168 := 2]
   \<and> raw_adf_fp acos_ref straight_line (100, 100, 100) (3 / 2) 169 ! 168 = 2"
proof -
  have r: "raw_adf_fp acos_ref straight_line (100, 100, 100) (3 / 2) 169 = (replicate 169 0)[168 := 2]"
    by (rule raw_169) (rule acos_ref_m1)
  have "raw_adf_fp acos_ref straight_line (100, 100, 100) (3 / 2) 169 ! 168 = 2"
    unfolding r by simp
  with r show ?thesis
    using delta_fp_straight_line(1) neighbors_fp_straight_line(1)
      pair_theta_fp_opposite_180[of acos_ref, OF acos_ref_m1] dtheta_fp_169 quotient_169
      pair_bin_fp_opposite(1)[of acos_ref, OF acos_ref_m1]
    by blast
qed

text \<open>
  C3, amended. The three loops visit every central particle \<open>i\<close> and every pair of
  positions \<open>jIdx < kIdx\<close> of its neighbour list exactly once. A visit that is not
  skipped has the bin index \<open>floor (theta / dtheta)\<close>, evaluated in double arithmetic
  with \<open>dtheta = thetaBin[1] - thetaBin[0]\<close>, which is \<open>180 / numBins\<close> rounded to a
  double; it adds exactly 2 to the bin of that index
  when the index is below \<open>numBins\<close> and nothing otherwise, so bin \<open>b\<close> of the raw
  histogram is twice the number of visits with index \<open>b\<close>. An angle of exactly 180
  degrees has index 180 for 180 bins, which is no bin, and index 168 for 169 bins, the
  last bin.
\<close>

theorem pair_binning_double:
  assumes "1 \<le> numBins" and "b < numBins" and "valid_box boxSize"
  shows "dtheta_fp numBins = fl (180 / real numBins)
       \<and> (\<forall>i. distinct (neighbors_fp positions boxSize rMax i))
       \<and> distinct (triples_fp positions boxSize rMax)
       \<and> set (triples_fp positions boxSize rMax) =
           {(i, jIdx, kIdx). i < length positions \<and> jIdx < kIdx
                \<and> kIdx < length (neighbors_fp positions boxSize rMax i)}
       \<and> raw_adf_fp acos positions boxSize rMax numBins ! b =
           2 * real (length (filter
                 (\<lambda>t. triple_bin_fp acos numBins positions boxSize rMax t = Some (int b))
                 (triples_fp positions boxSize rMax)))
       \<and> (\<forall>vecIJ vecIK th. pair_theta_fp acos vecIJ vecIK = Some th \<longrightarrow>
             pair_bin_fp acos (dtheta_fp numBins) vecIJ vecIK
               = Some \<lfloor>fl (th / dtheta_fp numBins)\<rfloor>)
       \<and> dtheta_fp 180 = 1 \<and> dtheta_fp 169 = 1199183332731789 / 2 ^ 50
       \<and> (\<forall>vecIJ vecIK. pair_theta_fp acos vecIJ vecIK = Some 180 \<longrightarrow>
             pair_bin_fp acos (dtheta_fp 180) vecIJ vecIK = Some 180
             \<and> pair_bin_fp acos (dtheta_fp 169) vecIJ vecIK = Some 168)"
proof (intro conjI allI impI)
  show "dtheta_fp numBins = fl (180 / real numBins)" using assms(1) by (rule dtheta_fp_eq)
  show "distinct (neighbors_fp positions boxSize rMax i)" for i
    by (rule distinct_neighbors_fp)
  show "distinct (triples_fp positions boxSize rMax)" by (rule distinct_triples_fp)
  show "set (triples_fp positions boxSize rMax) =
           {(i, jIdx, kIdx). i < length positions \<and> jIdx < kIdx
                \<and> kIdx < length (neighbors_fp positions boxSize rMax i)}"
    by (rule set_triples_fp)
  show "raw_adf_fp acos positions boxSize rMax numBins ! b =
           2 * real (length (filter
                 (\<lambda>t. triple_bin_fp acos numBins positions boxSize rMax t = Some (int b))
                 (triples_fp positions boxSize rMax)))"
    using assms(2) by (rule nth_raw_adf_fp)
  show "pair_bin_fp acos (dtheta_fp numBins) vecIJ vecIK = Some \<lfloor>fl (th / dtheta_fp numBins)\<rfloor>"
    if "pair_theta_fp acos vecIJ vecIK = Some th" for vecIJ vecIK th
    using that by (rule pair_bin_fp_index)
  show "dtheta_fp 180 = 1" by (rule dtheta_fp_180)
  show "dtheta_fp 169 = 1199183332731789 / 2 ^ 50" by (rule dtheta_fp_169)
  show "pair_bin_fp acos (dtheta_fp 180) vecIJ vecIK = Some 180"
    if "pair_theta_fp acos vecIJ vecIK = Some 180" for vecIJ vecIK
    using that by (simp add: pair_bin_fp_def index_180)
  show "pair_bin_fp acos (dtheta_fp 169) vecIJ vecIK = Some 168"
    if "pair_theta_fp acos vecIJ vecIK = Some 180" for vecIJ vecIK
    using that by (simp add: pair_bin_fp_def index_169)
qed

theorem pair_binning_double_witness:
  "(1::nat) \<le> 180 \<and> (179::nat) < 180 \<and> valid_box (100, 100, 100)
   \<and> pair_theta_fp acos_ref (1, 0, 0) (- 1, 0, 0) = Some 180
   \<and> pair_bin_fp acos_ref (dtheta_fp 180) (1, 0, 0) (- 1, 0, 0) = Some 180
   \<and> raw_adf_fp acos_ref straight_line (100, 100, 100) (3 / 2) 180 ! 179 = 0
   \<and> length (filter
         (\<lambda>t. triple_bin_fp acos_ref 180 straight_line (100, 100, 100) (3 / 2) t = Some (int 179))
         (triples_fp straight_line (100, 100, 100) (3 / 2))) = 0"
proof -
  have h1: "(1::nat) \<le> 180" and h2: "(179::nat) < 180" and h3: "valid_box (100, 100, 100)"
    by simp_all
  have t: "pair_theta_fp acos_ref (1, 0, 0) (- 1, 0, 0) = Some 180"
    by (rule pair_theta_fp_opposite_180) (rule acos_ref_m1)
  have v: "raw_adf_fp acos_ref straight_line (100, 100, 100) (3 / 2) 180 ! 179 = 0"
    by (simp add: raw_180 acos_ref_m1)
  note w = pair_binning_double[OF h1 h2 h3, where acos = acos_ref and positions = straight_line
      and rMax = "3 / 2"]
  from w t have i: "pair_bin_fp acos_ref (dtheta_fp 180) (1, 0, 0) (- 1, 0, 0) = Some 180"
    by blast
  from w v have c: "length (filter
         (\<lambda>t. triple_bin_fp acos_ref 180 straight_line (100, 100, 100) (3 / 2) t = Some (int 179))
         (triples_fp straight_line (100, 100, 100) (3 / 2))) = 0"
    by simp
  from h1 h2 h3 t i v c show ?thesis by blast
qed

text \<open>
  C4. Let \<open>total\<close> be the sum of the raw counts. If \<open>total = 0\<close> the engine returns the
  raw histogram, which is all zero, and its only effect is the warning on the console.
  Otherwise it returns \<open>count / (total * dthetaRadians)\<close> for every bin, where
  \<open>dthetaRadians\<close> is the bin width in radians, and writes nothing.
\<close>

theorem normalization_rule:
  assumes "1 \<le> numBins"
  shows "let counts = raw_adf positions boxSize rMax numBins;
             total = sum_list counts;
             dthetaRadians = ((180 / real numBins) * pi) / 180;
             out = computeADF positions boxSize rMax numBins s
         in (total = 0 \<longrightarrow>
               adf (fst out) = counts \<and> counts = replicate numBins 0
               \<and> snd out = s\<lparr>console := console s @ [''No angles were counted within r_max.'']\<rparr>)
          \<and> (total \<noteq> 0 \<longrightarrow>
               adf (fst out) = map (\<lambda>count. count / (total * dthetaRadians)) counts
               \<and> snd out = s)"
  using assms raw_adf_total_zero[OF assms, of positions boxSize rMax]
  by (simp add: computeADF_def Let_def foldl_plus_sum_list dtheta_of_eq)

theorem normalization_rule_witness:
  "(1::nat) \<le> 2
   \<and> sum_list (raw_adf right_angle (10, 10, 10) (6 / 5) 2) \<noteq> 0
   \<and> adf (fst (computeADF right_angle (10, 10, 10) (6 / 5) 2 page0)) = [0, 2 / pi]
   \<and> sum_list (raw_adf [] (10, 10, 10) (6 / 5) 2) = 0
   \<and> adf (fst (computeADF [] (10, 10, 10) (6 / 5) 2 page0)) = [0, 0]
   \<and> console (snd (computeADF [] (10, 10, 10) (6 / 5) 2 page0))
       = [''No angles were counted within r_max.'']"
proof -
  have h: "(1::nat) \<le> 2" by simp
  have e: "raw_adf [] (10, 10, 10) (6 / 5) 2 = [0, 0]"
    by (simp add: raw_adf_def numeral_2_eq_2)
  from normalization_rule[OF h, of right_angle "(10, 10, 10)" "6 / 5" page0]
  have a: "adf (fst (computeADF right_angle (10, 10, 10) (6 / 5) 2 page0)) = [0, 2 / pi]"
    by (simp add: raw_right_angle_two_bins Let_def)
  from normalization_rule[OF h, of "[]" "(10, 10, 10)" "6 / 5" page0]
  have b: "adf (fst (computeADF [] (10, 10, 10) (6 / 5) 2 page0)) = [0, 0]
     \<and> console (snd (computeADF [] (10, 10, 10) (6 / 5) 2 page0))
       = [''No angles were counted within r_max.'']"
    by (simp add: e Let_def page0_def)
  show ?thesis using a b by (simp add: raw_right_angle_two_bins e)
qed

text \<open>
  C5, as stated, fails. With the three particles at the origin, \<open>(1, 0, 0)\<close> and
  \<open>(0, 1, 0)\<close>, the box \<open>(100, 100, 100)\<close> (no wrap), \<open>rMax = 2\<close> (both neighbours of the
  origin included) and 180 bins, the particles at \<open>(1, 0, 0)\<close> and \<open>(0, 1, 0)\<close> are
  central particles too and are within the cutoff of each other: each sees an angle of
  45 degrees, so bin 45 holds 4.
\<close>

theorem worked_example_counterexample:
  "delta_of right_angle (100, 100, 100) 0 = [(0, 0, 0), (1, 0, 0), (0, 1, 0)]
   \<and> neighbors_at right_angle (100, 100, 100) 2 0 = [1, 2]
   \<and> raw_adf right_angle (100, 100, 100) 2 180 ! 45 = 4
   \<and> raw_adf right_angle (100, 100, 100) 2 180 \<noteq> (replicate 180 0)[90 := 2]"
proof -
  have d: "delta_of right_angle (100, 100, 100) 0 = [(0, 0, 0), (1, 0, 0), (0, 1, 0)]"
    by (simp add: delta_right_angle)
  have n: "neighbors_at right_angle (100, 100, 100) 2 0 = [1, 2]"
    using sqrt2_lt by (simp add: neighbors_at_def d nbrs_far)
  have v: "raw_adf right_angle (100, 100, 100) 2 180 ! 45 = 4"
    using sqrt2_lt by (simp add: raw_right_angle_far bin_180 bump_def)
  have "raw_adf right_angle (100, 100, 100) 2 180 \<noteq> (replicate 180 0)[90 := 2]"
  proof
    assume "raw_adf right_angle (100, 100, 100) 2 180 = (replicate 180 0)[90 := 2]"
    hence "raw_adf right_angle (100, 100, 100) 2 180 ! 45 = (replicate 180 (0::real))[90 := 2] ! 45"
      by simp
    thus False by (simp add: v)
  qed
  with d n v show ?thesis by simp
qed

text \<open>
  C5, amended. With the same three particles, box edges above 2 (no wrap) and
  \<open>1 < rMax \<le> sqrt 2\<close>, so that both neighbours of the origin are included and the two
  are not within the cutoff of each other, the raw histogram for 180 bins has count 2 in
  bin 90 and 0 in every other bin.
\<close>

theorem worked_example_near_cutoff:
  assumes "2 < b0" and "2 < b1" and "2 < b2" and "1 < rMax" and "rMax \<le> sqrt 2"
  shows "delta_of right_angle (b0, b1, b2) 0 = [(0, 0, 0), (1, 0, 0), (0, 1, 0)]
       \<and> neighbors_at right_angle (b0, b1, b2) rMax 0 = [1, 2]
       \<and> raw_adf right_angle (b0, b1, b2) rMax 180 = (replicate 180 0)[90 := 2]"
proof -
  have d: "delta_of right_angle (b0, b1, b2) 0 = [(0, 0, 0), (1, 0, 0), (0, 1, 0)]"
    using assms(1-3) by (rule delta_right_angle)
  have n: "neighbors_at right_angle (b0, b1, b2) rMax 0 = [1, 2]"
    by (simp add: neighbors_at_def d nbrs_near[OF assms(4,5)])
  have "raw_adf right_angle (b0, b1, b2) rMax 180 = (replicate 180 0)[90 := 2]"
    by (simp add: raw_right_angle_near[OF assms] bin_180 bump_def)
  with d n show ?thesis by simp
qed

theorem worked_example_near_cutoff_witness:
  "(2::real) < 10 \<and> (1::real) < 6 / 5 \<and> 6 / 5 \<le> sqrt 2
   \<and> raw_adf right_angle (10, 10, 10) (6 / 5) 180 = (replicate 180 0)[90 := 2]"
proof -
  have h1: "(2::real) < 10" and h2: "(1::real) < 6 / 5" by simp_all
  have h3: "6 / 5 \<le> sqrt 2" using sqrt2_gt by simp
  from worked_example_near_cutoff[OF h1 h1 h1 h2 h3] h1 h2 h3 show ?thesis by simp
qed

text \<open>
  C6. With fewer than three particles the engine returns an all-zero histogram of
  length \<open>numBins\<close>, through the branch for \<open>total = 0\<close> (the warning is written).
\<close>

theorem few_particles_all_zero:
  assumes "length positions < 3" and "valid_box boxSize" and "0 < rMax" and "1 \<le> numBins"
  shows "adf (fst (computeADF positions boxSize rMax numBins s)) = replicate numBins 0
       \<and> length (adf (fst (computeADF positions boxSize rMax numBins s))) = numBins
       \<and> snd (computeADF positions boxSize rMax numBins s)
           = s\<lparr>console := console s @ [''No angles were counted within r_max.'']\<rparr>"
  using assms(1,4) by (simp add: computeADF_def Let_def raw_adf_few foldl_plus_sum_list sum_list_replicate)

theorem few_particles_all_zero_witness:
  "length [(0, 0, 0), (1, 0, 0) :: vec3] < 3 \<and> valid_box (10, 10, 10) \<and> (0::real) < 2 \<and> (1::nat) \<le> 4
   \<and> adf (fst (computeADF [(0, 0, 0), (1, 0, 0)] (10, 10, 10) 2 4 page0)) = [0, 0, 0, 0]"
proof -
  have h1: "length [(0, 0, 0), (1, 0, 0) :: vec3] < 3" and h2: "valid_box (10, 10, 10)"
    and h3: "(0::real) < 2" and h4: "(1::nat) \<le> 4" by simp_all
  have r: "replicate 4 (0::real) = [0, 0, 0, 0]" by (simp add: numeral_eq_Suc)
  from few_particles_all_zero[OF h1 h2 h3 h4, of page0] h1 h2 show ?thesis by (simp add: r)
qed

text \<open>
  C7. For \<open>numBins \<ge> 1\<close> the returned edges and the returned histogram both have length
  \<open>numBins\<close>; edge \<open>k\<close> is \<open>k * (180 / numBins)\<close>, so consecutive edges differ by
  \<open>180 / numBins\<close> and increase strictly, the first is 0 and the last is
  \<open>180 * (numBins - 1) / numBins\<close>.
\<close>

theorem edges_and_lengths:
  assumes "1 \<le> numBins"
  shows "let out = fst (computeADF positions boxSize rMax numBins s)
         in length (theta out) = numBins \<and> length (adf out) = numBins
          \<and> (\<forall>k<numBins. theta out ! k = real k * (180 / real numBins))
          \<and> (\<forall>k. k + 1 < numBins \<longrightarrow>
                 theta out ! (k + 1) - theta out ! k = 180 / real numBins
                 \<and> theta out ! k < theta out ! (k + 1))
          \<and> theta out ! 0 = 0
          \<and> theta out ! (numBins - 1) = 180 * (real numBins - 1) / real numBins"
proof -
  let ?out = "fst (computeADF positions boxSize rMax numBins s)"
  have th: "theta ?out ! k = real k * (180 / real numBins)" if "k < numBins" for k
    using that by (simp add: theta_edges)
  have len: "length (theta ?out) = numBins" by (simp add: theta_edges)
  have step: "theta ?out ! (k + 1) - theta ?out ! k = 180 / real numBins
              \<and> theta ?out ! k < theta ?out ! (k + 1)" if "k + 1 < numBins" for k
  proof -
    have pos: "0 < 180 / real numBins" using assms by simp
    have a: "theta ?out ! (k + 1) = real (k + 1) * (180 / real numBins)"
      using that by (rule th)
    have b: "theta ?out ! k = real k * (180 / real numBins)"
      using that by (intro th) simp
    have "theta ?out ! (k + 1) - theta ?out ! k = 180 / real numBins"
      unfolding a b by (simp add: algebra_simps add_divide_distrib)
    with pos show ?thesis by linarith
  qed
  have first: "theta ?out ! 0 = 0" using th[of 0] assms by simp
  have last: "theta ?out ! (numBins - 1) = 180 * (real numBins - 1) / real numBins"
    using th[of "numBins - 1"] assms by (simp add: of_nat_diff)
  show ?thesis
    unfolding Let_def using len length_adf_out[OF assms] th step first last by blast
qed

theorem edges_and_lengths_witness:
  "(1::nat) \<le> 4 \<and> (1::nat) < 4 \<and> (1::nat) + 1 < 4
   \<and> theta (fst (computeADF right_angle (10, 10, 10) (6 / 5) 4 page0)) = [0, 45, 90, 135]
   \<and> length (adf (fst (computeADF right_angle (10, 10, 10) (6 / 5) 4 page0))) = 4
   \<and> theta (fst (computeADF right_angle (10, 10, 10) (6 / 5) 4 page0)) ! 1 = 45
   \<and> theta (fst (computeADF right_angle (10, 10, 10) (6 / 5) 4 page0)) ! (1 + 1)
       - theta (fst (computeADF right_angle (10, 10, 10) (6 / 5) 4 page0)) ! 1 = 45
   \<and> theta (fst (computeADF right_angle (10, 10, 10) (6 / 5) 4 page0)) ! (4 - 1) = 135"
proof -
  have h: "(1::nat) \<le> 4" by simp
  have e: "theta (fst (computeADF right_angle (10, 10, 10) (6 / 5) 4 page0)) = [0, 45, 90, 135]"
    by (simp add: theta_edges upt_rec)
  from edges_and_lengths[OF h, of right_angle "(10, 10, 10)" "6 / 5" page0]
  have "length (adf (fst (computeADF right_angle (10, 10, 10) (6 / 5) 4 page0))) = 4
    \<and> theta (fst (computeADF right_angle (10, 10, 10) (6 / 5) 4 page0)) ! 1 = 1 * (180 / 4)
    \<and> theta (fst (computeADF right_angle (10, 10, 10) (6 / 5) 4 page0)) ! (1 + 1)
       - theta (fst (computeADF right_angle (10, 10, 10) (6 / 5) 4 page0)) ! 1 = 180 / 4
    \<and> theta (fst (computeADF right_angle (10, 10, 10) (6 / 5) 4 page0)) ! (4 - 1)
       = 180 * (4 - 1) / 4"
    unfolding Let_def by (auto simp del: One_nat_def)
  with e show ?thesis by simp
qed

text \<open>
  C8. In the double arithmetic of the code the computed cosine of line 86 can leave
  \<open>[-1, 1]\<close>: for the vectors \<open>(1, 1, 1)\<close> and \<open>(-1, -1, -1)\<close> it is \<open>-(1 + 2^-52)\<close>.
  The value given to \<open>Math.acos\<close> is the clamp of the computed cosine, which lies in
  \<open>[-1, 1]\<close>, so the result is never NaN and the pair body always bins the angle of the
  clamped cosine. A computed cosine at or below \<open>-1\<close> gives the angle of the cosine
  \<open>-1\<close>, which is exactly 180 degrees when \<open>Math.acos(-1)\<close> is \<open>Math.PI\<close>; with 169 bins
  that pair is counted in bin 168.
\<close>

theorem clamp_guards_acos:
  "(let c = min 1 (max (- 1) (cos_fp v w))
    in - 1 \<le> c \<and> c \<le> 1 \<and> Math_acos acos c = Some (acos c))
   \<and> pair_body_fp acos numBins dtheta delta neighbors jIdx kIdx hist =
       (let vecIJ = delta ! nat (neighbors ! jIdx);
            vecIK = delta ! nat (neighbors ! kIdx)
        in if fl (sqrt (dot_fp vecIJ vecIJ)) = 0 \<or> fl (sqrt (dot_fp vecIK vecIK)) = 0 then hist
           else bump numBins
                  \<lfloor>fl (fl (fl (acos (min 1 (max (- 1) (cos_fp vecIJ vecIK))) * 180) / Math_PI)
                       / dtheta)\<rfloor> hist)
   \<and> (fl (sqrt (dot_fp v v)) \<noteq> 0 \<and> fl (sqrt (dot_fp w w)) \<noteq> 0 \<and> cos_fp v w \<le> - 1 \<longrightarrow>
        pair_theta_fp acos v w = Some (fl (fl (acos (- 1) * 180) / Math_PI)))
   \<and> cos_fp (1, 1, 1) (- 1, - 1, - 1) = - (4503599627370497 / 2 ^ 52)
   \<and> cos_fp (1, 1, 1) (- 1, - 1, - 1) < - 1
   \<and> (acos (- 1) = Math_PI \<longrightarrow>
        pair_theta_fp acos (1, 1, 1) (- 1, - 1, - 1) = Some 180
        \<and> pair_body_fp acos 169 (dtheta_fp 169) [(1, 1, 1), (- 1, - 1, - 1)] [0, 1] 0 1 hist
            = hist[168 := hist ! 168 + 2]
        \<and> raw_adf_fp acos diagonal (100, 100, 100) 2 169 = (replicate 169 0)[168 := 2])"
proof (intro conjI impI)
  show "let c = min 1 (max (- 1) (cos_fp v w))
        in - 1 \<le> c \<and> c \<le> 1 \<and> Math_acos acos c = Some (acos c)"
    by (simp add: Let_def Math_acos_def)
  show "pair_body_fp acos numBins dtheta delta neighbors jIdx kIdx hist =
       (let vecIJ = delta ! nat (neighbors ! jIdx);
            vecIK = delta ! nat (neighbors ! kIdx)
        in if fl (sqrt (dot_fp vecIJ vecIJ)) = 0 \<or> fl (sqrt (dot_fp vecIK vecIK)) = 0 then hist
           else bump numBins
                  \<lfloor>fl (fl (fl (acos (min 1 (max (- 1) (cos_fp vecIJ vecIK))) * 180) / Math_PI)
                       / dtheta)\<rfloor> hist)"
    by (rule pair_body_fp_clamped)
  show "pair_theta_fp acos v w = Some (fl (fl (acos (- 1) * 180) / Math_PI))"
    if "fl (sqrt (dot_fp v v)) \<noteq> 0 \<and> fl (sqrt (dot_fp w w)) \<noteq> 0 \<and> cos_fp v w \<le> - 1"
    using that by (intro pair_theta_fp_overshoot) simp_all
  show "cos_fp (1, 1, 1) (- 1, - 1, - 1) = - (4503599627370497 / 2 ^ 52)" by (rule cos_fp_diag)
  show "cos_fp (1, 1, 1) (- 1, - 1, - 1) < - 1" by (rule cos_fp_diag_less)
  show "pair_theta_fp acos (1, 1, 1) (- 1, - 1, - 1) = Some 180" if "acos (- 1) = Math_PI"
    using that by (simp add: pair_theta_fp_diag theta_of_pi)
  show "pair_body_fp acos 169 (dtheta_fp 169) [(1, 1, 1), (- 1, - 1, - 1)] [0, 1] 0 1 hist
            = hist[168 := hist ! 168 + 2]" if "acos (- 1) = Math_PI"
    using that by (rule pair_body_fp_diag)
  show "raw_adf_fp acos diagonal (100, 100, 100) 2 169 = (replicate 169 0)[168 := 2]"
    if "acos (- 1) = Math_PI"
    using that by (rule raw_adf_fp_diagonal)
qed

theorem clamp_guards_acos_witness:
  "acos_ref (- 1) = Math_PI
   \<and> fl (sqrt (dot_fp (1, 1, 1) (1, 1, 1))) \<noteq> 0
   \<and> fl (sqrt (dot_fp (- 1, - 1, - 1) (- 1, - 1, - 1))) \<noteq> 0
   \<and> cos_fp (1, 1, 1) (- 1, - 1, - 1) \<le> - 1
   \<and> min 1 (max (- 1) (cos_fp (1, 1, 1) (- 1, - 1, - 1))) = - 1
   \<and> pair_theta_fp acos_ref (1, 1, 1) (- 1, - 1, - 1) = Some 180
   \<and> pair_body_fp acos_ref 169 (dtheta_fp 169) [(1, 1, 1), (- 1, - 1, - 1)] [0, 1] 0 1
        (replicate 169 0) = (replicate 169 0)[168 := 2]
   \<and> raw_adf_fp acos_ref diagonal (100, 100, 100) 2 169 = (replicate 169 0)[168 := 2]"
proof -
  have a: "acos_ref (- 1) = Math_PI" by (rule acos_ref_m1)
  have n1: "fl (sqrt (dot_fp (1, 1, 1) (1, 1, 1))) \<noteq> 0"
    unfolding dot_fp_diag by (rule norm_fp_diag_nonzero)
  have n2: "fl (sqrt (dot_fp (- 1, - 1, - 1) (- 1, - 1, - 1))) \<noteq> 0"
    unfolding dot_fp_diag by (rule norm_fp_diag_nonzero)
  note w = clamp_guards_acos[where acos = acos_ref and v = "(1, 1, 1)" and w = "(- 1, - 1, - 1)"
      and hist = "replicate 169 0"]
  from w have c: "cos_fp (1, 1, 1) (- 1, - 1, - 1) \<le> - 1" by simp
  hence m: "min 1 (max (- 1) (cos_fp (1, 1, 1) (- 1, - 1, - 1))) = - 1" by simp
  from w a have t: "pair_theta_fp acos_ref (1, 1, 1) (- 1, - 1, - 1) = Some 180" by blast
  from w a have b: "pair_body_fp acos_ref 169 (dtheta_fp 169) [(1, 1, 1), (- 1, - 1, - 1)] [0, 1] 0 1
        (replicate 169 0) = (replicate 169 0)[168 := replicate 169 0 ! 168 + 2]" by blast
  hence b': "pair_body_fp acos_ref 169 (dtheta_fp 169) [(1, 1, 1), (- 1, - 1, - 1)] [0, 1] 0 1
        (replicate 169 0) = (replicate 169 0)[168 := 2]" by simp
  from w a have r: "raw_adf_fp acos_ref diagonal (100, 100, 100) 2 169 = (replicate 169 0)[168 := 2]"
    by blast
  from a n1 n2 c m t b' r show ?thesis by blast
qed

text \<open>
  C9. For positions \<open>jIdx\<close> and \<open>kIdx\<close> of the neighbour list of a central particle,
  the norms recomputed in the pair loop are the distances that passed the neighbour
  filter; both are strictly positive, so the guard for a zero norm is false.
\<close>

theorem zero_norm_guard_unreachable:
  assumes "i < length positions" and "valid_box boxSize"
    and "jIdx < length (neighbors_at positions boxSize rMax i)"
    and "kIdx < length (neighbors_at positions boxSize rMax i)"
  shows "let delta = delta_of positions boxSize i;
             distances = distances_of delta;
             neighbors = neighbors_of distances rMax;
             vecIJ = delta ! nat (neighbors ! jIdx);
             vecIK = delta ! nat (neighbors ! kIdx);
             normIJ = sqrt (dot vecIJ vecIJ);
             normIK = sqrt (dot vecIK vecIK)
         in normIJ = distances ! nat (neighbors ! jIdx)
          \<and> normIK = distances ! nat (neighbors ! kIdx)
          \<and> 0 < normIJ \<and> 0 < normIK \<and> \<not> (normIJ = 0 \<or> normIK = 0)"
proof -
  obtain p where p: "neighbors_at positions boxSize rMax i ! jIdx = int p" "p < length positions"
      "0 < mi_dist positions boxSize i p"
    using neighbor_in_range[OF assms(3)] by blast
  obtain q where q: "neighbors_at positions boxSize rMax i ! kIdx = int q" "q < length positions"
      "0 < mi_dist positions boxSize i q"
    using neighbor_in_range[OF assms(4)] by blast
  have np: "0 < sqrt (dot (mi_disp positions boxSize i p) (mi_disp positions boxSize i p))"
    and nq: "0 < sqrt (dot (mi_disp positions boxSize i q) (mi_disp positions boxSize i q))"
    using p(3) q(3) unfolding mi_dist_def by blast+
  have dp: "distances_of (delta_of positions boxSize i) ! p
            = sqrt (dot (mi_disp positions boxSize i p) (mi_disp positions boxSize i p))"
    and dq: "distances_of (delta_of positions boxSize i) ! q
            = sqrt (dot (mi_disp positions boxSize i q) (mi_disp positions boxSize i q))"
    using p(2) q(2) by (simp_all add: nth_distances_of mi_dist_def)
  have vp: "delta_of positions boxSize i ! p = mi_disp positions boxSize i p"
    and vq: "delta_of positions boxSize i ! q = mi_disp positions boxSize i q"
    using p(2) q(2) by (simp_all add: nth_delta_of)
  show ?thesis
    unfolding Let_def neighbors_at_def[symmetric] p(1) q(1) nat_int vp vq dp dq
    using np nq by auto
qed

theorem zero_norm_guard_unreachable_witness:
  "(0::nat) < length right_angle \<and> valid_box (10, 10, 10)
   \<and> neighbors_at right_angle (10, 10, 10) (6 / 5) 0 = [1, 2]
   \<and> (let delta = delta_of right_angle (10, 10, 10) 0;
           distances = distances_of delta;
           neighbors = neighbors_of distances (6 / 5);
           vecIJ = delta ! nat (neighbors ! 0);
           vecIK = delta ! nat (neighbors ! 1);
           normIJ = sqrt (dot vecIJ vecIJ);
           normIK = sqrt (dot vecIK vecIK)
       in normIJ = distances ! nat (neighbors ! 0)
        \<and> normIK = distances ! nat (neighbors ! 1)
        \<and> 0 < normIJ \<and> 0 < normIK \<and> \<not> (normIJ = 0 \<or> normIK = 0))"
proof -
  have h1: "(0::nat) < length right_angle" by (simp add: right_angle_def)
  have h2: "valid_box (10, 10, 10)" by simp
  have n: "neighbors_at right_angle (10, 10, 10) (6 / 5) 0 = [1, 2]"
    using sqrt2_gt by (simp add: neighbors_at_def delta_right_angle nbrs_near)
  have h3: "0 < length (neighbors_at right_angle (10, 10, 10) (6 / 5) 0)"
    and h4: "1 < length (neighbors_at right_angle (10, 10, 10) (6 / 5) 0)" by (simp_all add: n)
  from zero_norm_guard_unreachable[OF h1 h2 h3 h4] n h1 h2
  show ?thesis by blast
qed

text \<open>
  C10. The result of \<open>computeADF\<close> does not depend on the state of the page, and the call
  leaves \<open>chartInstance\<close> as it was. Calling it, plotting the result (which replaces
  \<open>chartInstance\<close>) and calling it again on the same inputs returns the same result.
\<close>

theorem computeADF_pure:
  "fst (computeADF positions boxSize rMax numBins s) = fst (computeADF positions boxSize rMax numBins s')
   \<and> chartInstance (snd (computeADF positions boxSize rMax numBins s)) = chartInstance s
   \<and> (let (r1, s1) = computeADF positions boxSize rMax numBins s;
           s2 = plotADF (theta r1) (adf r1) s1;
           (r2, s3) = computeADF positions boxSize rMax numBins s2
       in r2 = r1)"
proof -
  have "fst (computeADF positions boxSize rMax numBins
          (plotADF (theta (fst (computeADF positions boxSize rMax numBins s)))
                   (adf (fst (computeADF positions boxSize rMax numBins s)))
                   (snd (computeADF positions boxSize rMax numBins s))))
        = fst (computeADF positions boxSize rMax numBins s)"
    by (rule computeADF_state_indep)
  thus ?thesis
    using computeADF_state_indep[of positions boxSize rMax numBins s s']
    by (simp add: computeADF_chart split_def Let_def)
qed

end
